theory Spec2Isabelle
  imports Main
begin

section \<open>The shared API client (frontend/src/lib/api.js)\<close>

text \<open>
  JavaScript strings are modelled as HOL strings. \<open>String.prototype.includes\<close> is a
  substring test; the empty string is included in every string.
\<close>

fun startsWith :: "string \<Rightarrow> string \<Rightarrow> bool" where
  "startsWith s [] = True"
| "startsWith [] (c # cs) = False"
| "startsWith (x # xs) (c # cs) = (x = c \<and> startsWith xs cs)"

fun js_includes :: "string \<Rightarrow> string \<Rightarrow> bool" where
  "js_includes [] sub = (sub = [])"
| "js_includes (x # xs) sub = (startsWith (x # xs) sub \<or> js_includes xs sub)"

text \<open>
  The request configuration carries the URL (which may be undefined) and the \<open>_retry\<close>
  flag that the interceptor sets on a request it is about to send again.
\<close>

record request_config =
  url :: "string option"
  retry :: bool

text \<open>An HTTP error response: its status and \<open>response.data.detail\<close> when present.\<close>

record error_response =
  status :: nat
  detail :: "string option"

text \<open>
  An error raised by axios: the configuration of the failed request, the response (absent
  on a network failure), and the two properties that callers read from the error object,
  \<open>error.status\<close> and \<open>error.message\<close>.
\<close>

record axios_error =
  config :: request_config
  response :: "error_response option"
  status_prop :: "nat option"
  message :: string

text \<open>
  What the interceptor rejects with: either the custom enterprise error it builds for a 402
  (message and the original error; \<open>isEnterpriseFeature = true\<close>, \<open>status = 402\<close>),
  or an axios error passed on unchanged.
\<close>

datatype rejection =
    EnterpriseError string axios_error
  | AxiosError axios_error

fun isEnterpriseFeature :: "rejection \<Rightarrow> bool" where
  "isEnterpriseFeature (EnterpriseError m e) = True"
| "isEnterpriseFeature (AxiosError e) = False"

fun rejection_status :: "rejection \<Rightarrow> nat option" where
  "rejection_status (EnterpriseError m e) = Some 402"
| "rejection_status (AxiosError e) = status_prop e"

fun rejection_message :: "rejection \<Rightarrow> string" where
  "rejection_message (EnterpriseError m e) = m"
| "rejection_message (AxiosError e) = message e"

text \<open>\<open>error.response?.data?.detail\<close> of a rejection; the custom error has no response.\<close>

fun rejection_detail :: "rejection \<Rightarrow> string option" where
  "rejection_detail (EnterpriseError m e) = None"
| "rejection_detail (AxiosError e) =
     (case response e of None \<Rightarrow> None | Some r \<Rightarrow> detail r)"

text \<open>\<open>a || b\<close> on an optional string: an absent or empty \<open>a\<close> is falsy.\<close>

definition or_default :: "string option \<Rightarrow> string \<Rightarrow> string" where
  "or_default a b = (case a of None \<Rightarrow> b | Some s \<Rightarrow> if s = [] then b else s)"

definition response_status :: "axios_error \<Rightarrow> nat option" where
  "response_status e = map_option status (response e)"

definition response_detail :: "axios_error \<Rightarrow> string option" where
  "response_detail e = (case response e of None \<Rightarrow> None | Some r \<Rightarrow> detail r)"

definition defaultEnterpriseMessage :: string where
  "defaultEnterpriseMessage =
     ''This is an Enterprise Edition feature. Contact support@kenislabs.com or visit kenislabs.com.com for more information.''"

definition skipRefreshUrls :: "string list" where
  "skipRefreshUrls = [''/api/auth/admin/login'', ''/api/auth/logout'', ''/api/auth/refresh'']"

text \<open>\<open>skipRefreshUrls.some((url) => originalRequest.url?.includes(url))\<close>\<close>

definition shouldSkipRefresh :: "request_config \<Rightarrow> bool" where
  "shouldSkipRefresh req =
     list_ex (\<lambda>u. case url req of None \<Rightarrow> False | Some s \<Rightarrow> js_includes s u) skipRefreshUrls"

text \<open>
  The module state: the \<open>isRefreshing\<close> flag and the queue \<open>refreshSubscribers\<close>. Every
  queued callback re-sends the request it was created for, so the queue is kept as the
  list of those requests.
\<close>

record client_state =
  isRefreshing :: bool
  refreshSubscribers :: "request_config list"

text \<open>
  The rejected-response handler up to its first suspension point. It either rejects at
  once, or queues the request behind the refresh that is in flight, or marks the request
  \<open>_retry\<close>, sets \<open>isRefreshing\<close> and starts the refresh POST. The file holds two copies
  of the client; this is the later one, which handles 402 before everything else (the
  earlier copy lacks that branch and is otherwise the same).
\<close>

datatype interceptor_step =
    Reject rejection
  | Enqueue
  | AwaitRefresh request_config

definition interceptor_onRejected ::
  "client_state \<Rightarrow> axios_error \<Rightarrow> interceptor_step \<times> client_state" where
  "interceptor_onRejected st err =
     (let originalRequest = config err in
      if response_status err = Some 402 then
        (Reject (EnterpriseError (or_default (response_detail err) defaultEnterpriseMessage) err), st)
      else if response_status err = Some 401 \<and> \<not> retry originalRequest
              \<and> \<not> shouldSkipRefresh originalRequest then
        (if isRefreshing st then
           (Enqueue, st\<lparr>refreshSubscribers := refreshSubscribers st @ [originalRequest]\<rparr>)
         else
           (AwaitRefresh (originalRequest\<lparr>retry := True\<rparr>), st\<lparr>isRefreshing := True\<rparr>))
      else (Reject (AxiosError err), st))"

text \<open>
  The two continuations of the refresh POST. On success the flag is cleared and
  \<open>onRefreshed\<close> re-sends every queued request and empties the queue; the handler then
  re-sends its own request. On failure the flag is cleared, the queue is dropped (its
  promises are never settled), the page is sent to \<open>/login\<close> and the refresh error is
  rejected.
\<close>

definition onRefreshed :: "client_state \<Rightarrow> request_config list \<times> client_state" where
  "onRefreshed st = (refreshSubscribers st, st\<lparr>refreshSubscribers := []\<rparr>)"

definition refreshSucceeded :: "client_state \<Rightarrow> request_config list \<times> client_state" where
  "refreshSucceeded st = onRefreshed (st\<lparr>isRefreshing := False\<rparr>)"

definition refreshFailed :: "client_state \<Rightarrow> axios_error \<Rightarrow> rejection \<times> client_state" where
  "refreshFailed st refreshError =
     (AxiosError refreshError, st\<lparr>isRefreshing := False, refreshSubscribers := []\<rparr>)"

text \<open>
  The life of one request through the client, \<open>api(originalRequest)\<close>. The network is a
  function from the number of the network call to its reply; a failed call carries the
  axios error, whose \<open>config\<close> is the request that was sent (the \<open>_retry\<close> mark set on the
  configuration stays on it when axios sends it again). A
  request that finds a refresh in flight waits for it: the next network event is then the
  completion of that refresh, started by another request. The result records how the
  caller's promise settles, how often the request was sent, and how many refresh POSTs
  were started for it.
\<close>

datatype net_reply = Success | Failure axios_error

datatype settlement = Resolved | Rejected rejection | NeverSettles

record run_result =
  outcome :: settlement
  sends :: nat
  refreshes :: nat
  final_state :: client_state

definition resent :: "run_result \<Rightarrow> run_result" where
  "resent r = r\<lparr>sends := Suc (sends r)\<rparr>"

definition refreshed :: "run_result \<Rightarrow> run_result" where
  "refreshed r = r\<lparr>refreshes := Suc (refreshes r)\<rparr>"

function api_call ::
  "(nat \<Rightarrow> net_reply) \<Rightarrow> nat \<Rightarrow> client_state \<Rightarrow> request_config \<Rightarrow> run_result" where
  "api_call srv n st req =
     (case srv n of
        Success \<Rightarrow> \<lparr>outcome = Resolved, sends = 1, refreshes = 0, final_state = st\<rparr>
      | Failure e \<Rightarrow>
          (case interceptor_onRejected st (e\<lparr>config := req\<rparr>) of
             (Reject r, st') \<Rightarrow>
               \<lparr>outcome = Rejected r, sends = 1, refreshes = 0, final_state = st'\<rparr>
           | (Enqueue, st') \<Rightarrow>
               (case srv (n + 1) of
                  Success \<Rightarrow>
                    (if req \<in> set (fst (refreshSucceeded st'))
                     then resent (api_call srv (n + 2) (snd (refreshSucceeded st')) req)
                     else \<lparr>outcome = NeverSettles, sends = 1, refreshes = 0,
                            final_state = snd (refreshSucceeded st')\<rparr>)
                | Failure re \<Rightarrow>
                    \<lparr>outcome = NeverSettles, sends = 1, refreshes = 0,
                      final_state = snd (refreshFailed st' re)\<rparr>)
           | (AwaitRefresh req', st') \<Rightarrow>
               (case srv (n + 1) of
                  Success \<Rightarrow>
                    refreshed (resent (api_call srv (n + 2) (snd (refreshSucceeded st')) req'))
                | Failure re \<Rightarrow>
                    \<lparr>outcome = Rejected (fst (refreshFailed st' re)), sends = 1, refreshes = 1,
                      final_state = snd (refreshFailed st' re)\<rparr>)))"
  by pat_completeness auto
termination
  by (relation "measure (\<lambda>(srv, n, st, req).
        if retry req then 0 else if isRefreshing st then 2 else (1::nat))")
     (auto simp: interceptor_onRejected_def refreshSucceeded_def onRefreshed_def Let_def
           split: if_splits)

section \<open>Toasts and awaited API calls\<close>

text \<open>
  A page awaits a call made through the client and continues in its \<open>try\<close> branch when the
  promise resolves, in its \<open>catch\<close> branch when it rejects, and not at all while the
  promise is unsettled. The settlement of the awaited call is a parameter of every handler.
\<close>

datatype toast = ToastSuccess string | ToastError string | ToastInfo string

section \<open>Per-user tool access (frontend/src/pages/AdminUsers.jsx)\<close>

text \<open>
  A row of \<open>userTools\<close> as the page uses it: the tool id, the organization flag, the user
  override (\<open>null\<close> when there is none) and the effective access. The remaining
  properties of the row (name, category, ...) are the record's extension, which the
  spread \<open>{...tool, ...}\<close> keeps.
\<close>

record tool_row =
  tool_id :: string
  org_enabled :: bool
  user_override :: "bool option"
  effective_access :: bool

record 'a admin_users_state =
  selectedUser :: "string option"
  userTools :: "'a tool_row_scheme list"
  toasts :: "toast list"

definition enterprise_or_error :: "rejection \<Rightarrow> string \<Rightarrow> string \<Rightarrow> toast" where
  "enterprise_or_error error fallback failure =
     (if isEnterpriseFeature error \<or> rejection_status error = Some 402
      then ToastInfo (or_default (Some (rejection_message error)) fallback)
      else ToastError failure)"

definition enterpriseOnlyMessage :: string where
  "enterpriseOnlyMessage = ''User-level tool permissions are only available in Enterprise Edition''"

text \<open>The \<open>catch\<close> branch of \<open>fetchUserTools\<close>: a toast, and the list is emptied.\<close>

definition fetchUserTools_catch ::
  "rejection \<Rightarrow> 'a admin_users_state \<Rightarrow> 'a admin_users_state" where
  "fetchUserTools_catch error st =
     st\<lparr>userTools := [],
        toasts := toasts st @
          [enterprise_or_error error enterpriseOnlyMessage ''Failed to load user tool permissions'']\<rparr>"

definition toggled_row :: "bool \<Rightarrow> 'a tool_row_scheme \<Rightarrow> 'a tool_row_scheme" where
  "toggled_row currentEnabled tool =
     tool\<lparr>user_override := Some (\<not> currentEnabled),
          effective_access := (if org_enabled tool then \<not> currentEnabled else False)\<rparr>"

definition toggleUserTool ::
  "settlement \<Rightarrow> string \<Rightarrow> bool \<Rightarrow> 'a admin_users_state \<Rightarrow> 'a admin_users_state" where
  "toggleUserTool put toolId currentEnabled st =
     (case selectedUser st of
        None \<Rightarrow> st
      | Some email \<Rightarrow>
          (case put of
             Resolved \<Rightarrow>
               st\<lparr>userTools :=
                    map (\<lambda>tool. if tool_id tool = toolId then toggled_row currentEnabled tool
                                else tool) (userTools st),
                  toasts := toasts st @
                    [ToastSuccess (''Tool '' @ (if \<not> currentEnabled then ''enabled'' else ''disabled'')
                                   @ '' for user'')]\<rparr>
           | Rejected error \<Rightarrow>
               st\<lparr>toasts := toasts st @
                    [enterprise_or_error error enterpriseOnlyMessage
                       ''Failed to update user tool permission'']\<rparr>
           | NeverSettles \<Rightarrow> st))"

definition reverted_row :: "'a tool_row_scheme \<Rightarrow> 'a tool_row_scheme" where
  "reverted_row tool = tool\<lparr>user_override := None, effective_access := org_enabled tool\<rparr>"

definition removeUserOverride ::
  "settlement \<Rightarrow> string \<Rightarrow> 'a admin_users_state \<Rightarrow> 'a admin_users_state" where
  "removeUserOverride del toolId st =
     (case selectedUser st of
        None \<Rightarrow> st
      | Some email \<Rightarrow>
          (case del of
             Resolved \<Rightarrow>
               st\<lparr>userTools :=
                    map (\<lambda>tool. if tool_id tool = toolId then reverted_row tool else tool)
                        (userTools st),
                  toasts := toasts st @
                    [ToastSuccess ''Override removed, reverted to organization default'']\<rparr>
           | Rejected error \<Rightarrow>
               st\<lparr>toasts := toasts st @
                    [enterprise_or_error error enterpriseOnlyMessage ''Failed to remove override'']\<rparr>
           | NeverSettles \<Rightarrow> st))"

text \<open>
  The effective access in the words of the specification: false when the organization
  flag is off; otherwise the override's value when an override exists; otherwise true.
\<close>

definition effectiveAccess_spec :: "bool \<Rightarrow> bool option \<Rightarrow> bool" where
  "effectiveAccess_spec org ov =
     (if \<not> org then False else case ov of Some enabled \<Rightarrow> enabled | None \<Rightarrow> True)"

text \<open>A row is consistent when its effective access is the one the specification prescribes.\<close>

definition row_consistent :: "'a tool_row_scheme \<Rightarrow> bool" where
  "row_consistent r = (effective_access r = effectiveAccess_spec (org_enabled r) (user_override r))"

section \<open>Password forms (lib/password-validation, ForceChangePassword)\<close>

text \<open>
  A JavaScript string is a sequence of UTF-16 code units and \<open>length\<close> counts them; the
  forms are therefore polymorphic in the type of the code unit. An empty string is falsy.
\<close>

record 'c password_form =
  oldPassword :: "'c list"
  newPassword :: "'c list"
  confirmPassword :: "'c list"

record validation_result =
  isValid :: bool
  error :: "string option"

definition validatePasswordChange :: "'c password_form \<Rightarrow> validation_result" where
  "validatePasswordChange f =
     (if oldPassword f = [] \<or> newPassword f = [] \<or> confirmPassword f = [] then
        \<lparr>isValid = False, error = Some ''All fields are required''\<rparr>
      else if newPassword f \<noteq> confirmPassword f then
        \<lparr>isValid = False, error = Some ''New passwords do not match''\<rparr>
      else if length (newPassword f) < 8 then
        \<lparr>isValid = False, error = Some ''New password must be at least 8 characters long''\<rparr>
      else if oldPassword f = newPassword f then
        \<lparr>isValid = False, error = Some ''New password must be different from old password''\<rparr>
      else \<lparr>isValid = True, error = None\<rparr>)"

text \<open>
  \<open>ForceChangePassword\<close>: the form, the error shown and the success flag. \<open>handleSubmit\<close>
  clears the error, validates, and only when the form is valid posts
  \<open>{old_password, new_password}\<close> to \<open>/api/auth/change-password\<close>. The backend's answer to
  the posted body is a parameter.
\<close>

record 'c change_password_page =
  form :: "'c password_form"
  cp_loading :: bool
  cp_error :: "string option"
  cp_success :: bool

record 'c change_password_body =
  old_password :: "'c list"
  new_password :: "'c list"

definition handleSubmit ::
  "('c change_password_body \<Rightarrow> settlement) \<Rightarrow> 'c change_password_page
     \<Rightarrow> 'c change_password_body option \<times> 'c change_password_page" where
  "handleSubmit post st =
     (let st1 = st\<lparr>cp_error := None\<rparr>;
          v = validatePasswordChange (form st1)
      in if \<not> isValid v then (None, st1\<lparr>cp_error := error v\<rparr>)
         else
           (let body = \<lparr>old_password = oldPassword (form st1),
                        new_password = newPassword (form st1)\<rparr>;
                st2 = st1\<lparr>cp_loading := True\<rparr>
            in (Some body,
                case post body of
                  Resolved \<Rightarrow> st2\<lparr>cp_success := True, cp_loading := False\<rparr>
                | Rejected err \<Rightarrow>
                    st2\<lparr>cp_error := Some (or_default (rejection_detail err) ''Failed to change password''),
                        cp_loading := False\<rparr>
                | NeverSettles \<Rightarrow> st2)))"

section \<open>OAuth provider forms (Admin page and MCPServerSettingsModal)\<close>

text \<open>
  \<open>String.prototype.trim\<close> removes white space at both ends; among the code units below
  256 these are TAB, LF, VT, FF, CR, SPACE and NBSP. \<open>split(',')\<close> cuts at every comma
  and returns one empty string for the empty string.
\<close>

definition isWhitespace :: "char \<Rightarrow> bool" where
  "isWhitespace c = (c \<in> set [CHR 0x09, CHR 0x0A, CHR 0x0B, CHR 0x0C, CHR 0x0D, CHR 0x20, CHR 0xA0])"

definition trim :: "string \<Rightarrow> string" where
  "trim s = rev (dropWhile isWhitespace (rev (dropWhile isWhitespace s)))"

fun split_comma :: "string \<Rightarrow> string list" where
  "split_comma [] = [[]]"
| "split_comma (c # cs) =
     (if c = CHR '','' then [] # split_comma cs
      else (case split_comma cs of [] \<Rightarrow> [[c]] | w # ws \<Rightarrow> (c # w) # ws))"

text \<open>
  The Admin page's form for an OAuth provider. When editing starts the secret field is
  set to the empty string. \<open>handleUpdateOAuthProvider\<close> is modelled by the body it puts to
  \<open>/api/admin/oauth-providers/{id}\<close>: the body carries \<open>client_secret\<close> only when the field
  is not empty (\<open>oauthForm.client_secret || undefined\<close>). \<open>JSON.parse\<close> is a parameter; when
  it throws, a toast is shown and nothing is sent.
\<close>

record oauth_form =
  f_mcp_server_id :: string
  f_provider_name :: string
  f_client_id :: string
  f_client_secret :: string
  f_redirect_uri :: string
  f_auth_url :: string
  f_token_url :: string
  f_scopes :: string
  f_additional_config :: string

record 'j provider_body =
  b_provider_name :: string
  b_client_id :: string
  b_client_secret :: "string option"
  b_redirect_uri :: string
  b_auth_url :: string
  b_token_url :: string
  b_scopes :: "string list"
  b_additional_config :: 'j

definition parse_scopes :: "string \<Rightarrow> string list" where
  "parse_scopes s = filter (\<lambda>x. x \<noteq> []) (map trim (split_comma s))"

definition handleUpdateOAuthProvider ::
  "(string \<Rightarrow> 'j option) \<Rightarrow> oauth_form \<Rightarrow> 'j provider_body option" where
  "handleUpdateOAuthProvider JSON_parse oauthForm =
     (case JSON_parse (f_additional_config oauthForm) of
        None \<Rightarrow> None
      | Some additionalConfig \<Rightarrow>
          Some \<lparr>b_provider_name = f_provider_name oauthForm,
                b_client_id = f_client_id oauthForm,
                b_client_secret =
                  (if f_client_secret oauthForm = [] then None
                   else Some (f_client_secret oauthForm)),
                b_redirect_uri = f_redirect_uri oauthForm,
                b_auth_url = f_auth_url oauthForm,
                b_token_url = f_token_url oauthForm,
                b_scopes = parse_scopes (f_scopes oauthForm),
                b_additional_config = additionalConfig\<rparr>)"

text \<open>
  The settings modal keeps the credentials it fetched (client id, redirect URI, scopes and,
  of the secret, only \<open>client_secret_hint\<close>, \<open>client_secret_configured\<close> and
  \<open>client_secret_updated_at\<close>). \<open>handleSave\<close> is modelled by the credentials payload it
  builds, which has \<open>client_secret\<close> only in edit mode and when the trimmed input is not
  empty.
\<close>

record 's credentials =
  c_client_id :: "string option"
  c_redirect_uri :: "string option"
  c_scopes :: 's
  c_client_secret_hint :: "string option"
  c_client_secret_configured :: bool
  c_client_secret_updated_at :: "nat option"

record 's settings_modal =
  credentials :: "'s credentials"
  secretEditMode :: bool
  newSecret :: string

record 's credentials_payload =
  p_client_id :: "string option"
  p_redirect_uri :: "string option"
  p_scopes :: 's
  p_client_secret :: "string option"

definition handleSave_payload :: "'s settings_modal \<Rightarrow> 's credentials_payload" where
  "handleSave_payload st =
     \<lparr>p_client_id = c_client_id (credentials st),
      p_redirect_uri = c_redirect_uri (credentials st),
      p_scopes = c_scopes (credentials st),
      p_client_secret =
        (if secretEditMode st \<and> trim (newSecret st) \<noteq> [] then Some (newSecret st) else None)\<rparr>"

section \<open>The broker behind the API\<close>

text \<open>
  The server side of the gateway is not part of the frontend sources. The definitions of
  this section follow the specification of the broker; each says what it stands for.
  The error taxonomy is the specification's.
\<close>

datatype broker_error =
    ProviderNotConfigured
  | InvalidState
  | ProviderError string
  | InvalidToken
  | PermissionDenied
  | PasswordChangeRequired
  | PasswordExpired
  | InvalidCredentials
  | AccountDisabled
  | DecryptionError
  | ValidationError

subsection \<open>Access Token Manager\<close>

text \<open>
  Modelled from the spec: the \<open>MCPAccessToken\<close> row of the Access Token Manager, which is
  missing from the sources (the frontend only posts to \<open>/api/mcp-tokens/\<close> and shows the
  token once). Only the hash of a token is stored; a row has no expiry field, so a token
  is valid as long as \<open>revoked_at\<close> is null.
\<close>

record 'h mcp_access_token =
  token_id :: nat
  user_id :: string
  token_hash :: 'h
  token_name :: string
  created_at :: nat
  revoked_at :: "nat option"

record issue_response =
  tokenId :: nat
  plaintextToken :: string
  createdAt :: nat

text \<open>
  Modelled from the spec: the first half of \<open>issue\<close>, missing from the sources: every
  non-revoked token of the user gets \<open>revoked_at\<close> set.
\<close>

definition revoke_prior :: "nat \<Rightarrow> string \<Rightarrow> 'h mcp_access_token list \<Rightarrow> 'h mcp_access_token list" where
  "revoke_prior now u rows =
     map (\<lambda>r. if user_id r = u \<and> revoked_at r = None then r\<lparr>revoked_at := Some now\<rparr> else r) rows"

text \<open>
  Modelled from the spec: \<open>issue(user, clientLabel)\<close>, missing from the sources. It revokes
  the user's prior tokens, then inserts a row with the hash of the new token and returns
  the plaintext token once. The one-way hash \<open>H\<close>, the clock and the random token are
  parameters.
\<close>

definition issue ::
  "(string \<Rightarrow> 'h) \<Rightarrow> nat \<Rightarrow> string \<Rightarrow> string \<Rightarrow> string \<Rightarrow> 'h mcp_access_token list
     \<Rightarrow> issue_response \<times> 'h mcp_access_token list" where
  "issue H now random u clientLabel rows =
     (\<lparr>tokenId = length rows, plaintextToken = random, createdAt = now\<rparr>,
      revoke_prior now u rows @
        [\<lparr>token_id = length rows, user_id = u, token_hash = H random,
          token_name = clientLabel, created_at = now, revoked_at = None\<rparr>])"

text \<open>
  Modelled from the spec: \<open>validate(presentedToken)\<close>, missing from the sources. It returns
  the user of a non-revoked row with the token's hash and fails with \<open>InvalidToken\<close> when
  there is none.
\<close>

definition validate :: "(string \<Rightarrow> 'h) \<Rightarrow> 'h mcp_access_token list \<Rightarrow> string \<Rightarrow> broker_error + string" where
  "validate H rows presentedToken =
     (case find (\<lambda>r. token_hash r = H presentedToken \<and> revoked_at r = None) rows of
        None \<Rightarrow> Inl InvalidToken
      | Some r \<Rightarrow> Inr (user_id r))"

text \<open>
  Modelled from the spec: \<open>revoke(tokenId)\<close>, missing from the sources; revoking a revoked
  token changes nothing.
\<close>

definition revoke :: "nat \<Rightarrow> nat \<Rightarrow> 'h mcp_access_token list \<Rightarrow> 'h mcp_access_token list" where
  "revoke now tid rows =
     map (\<lambda>r. if token_id r = tid \<and> revoked_at r = None then r\<lparr>revoked_at := Some now\<rparr> else r) rows"

text \<open>The non-revoked rows of a user, and the invariant: no user owns two of them.\<close>

definition active_tokens :: "string \<Rightarrow> 'h mcp_access_token list \<Rightarrow> 'h mcp_access_token list" where
  "active_tokens u rows = filter (\<lambda>r. user_id r = u \<and> revoked_at r = None) rows"

definition one_active_per_user :: "'h mcp_access_token list \<Rightarrow> bool" where
  "one_active_per_user rows = distinct (map user_id (filter (\<lambda>r. revoked_at r = None) rows))"

text \<open>Histories of the token table: any sequence of issues and revocations from the empty table.\<close>

datatype token_op =
    Issue nat string string string
  | Revoke nat nat

fun apply_token_op :: "(string \<Rightarrow> 'h) \<Rightarrow> 'h mcp_access_token list \<Rightarrow> token_op \<Rightarrow> 'h mcp_access_token list" where
  "apply_token_op H rows (Issue now random u clientLabel) = snd (issue H now random u clientLabel rows)"
| "apply_token_op H rows (Revoke now tid) = revoke now tid rows"

definition token_history :: "(string \<Rightarrow> 'h) \<Rightarrow> token_op list \<Rightarrow> 'h mcp_access_token list" where
  "token_history H ops = foldl (apply_token_op H) [] ops"

subsection \<open>Temporary Credential Manager\<close>

text \<open>
  Modelled from the spec: the \<open>User\<close> row and \<open>changePassword\<close> of the Temporary
  Credential Manager are missing from the sources. The password hash is a parameter.
\<close>

datatype role = Admin | Member

record 'h user =
  uid :: nat
  user_email :: string
  user_name :: string
  user_role :: role
  password_hash :: "'h option"
  auth_provider :: string
  password_expires_at :: "nat option"
  must_change_password :: bool

text \<open>
  Modelled from the spec: \<open>changePassword(user, old, new)\<close> requires \<open>new != old\<close>,
  \<open>len(new) >= 8\<close> and the correct old password; on success it stores the new hash and
  clears \<open>must_change_password\<close> and \<open>password_expires_at\<close>.
\<close>

definition changePassword ::
  "('c list \<Rightarrow> 'h) \<Rightarrow> 'h user \<Rightarrow> 'c list \<Rightarrow> 'c list \<Rightarrow> broker_error + 'h user" where
  "changePassword H u old new =
     (if new = old \<or> length new < 8 then Inl ValidationError
      else if password_hash u \<noteq> Some (H old) then Inl InvalidCredentials
      else Inr (u\<lparr>password_hash := Some (H new),
                  password_expires_at := None,
                  must_change_password := False\<rparr>))"

subsection \<open>OAuth Provider Registry\<close>

text \<open>
  Modelled from the spec: the \<open>OAuthProviderConfig\<close> row, \<open>upsert\<close> and the read endpoint
  of the OAuth Provider Registry are missing from the sources. The row keeps the secret
  as ciphertext, with the hint and the time of its last update beside it (the settings
  modal reads them as \<open>client_secret_hint\<close> and \<open>client_secret_updated_at\<close>). The Vault's
  \<open>encrypt\<close>, the hint function and the clock are parameters.
\<close>

record ('c, 'j) oauth_provider_config =
  mcp_server_id :: string
  provider_name :: string
  client_id :: string
  client_secret :: 'c
  client_secret_hint :: string
  client_secret_updated_at :: nat
  redirect_uri :: string
  auth_url :: string
  token_url :: string
  scopes :: "string list"
  additional_config :: 'j

record 'j provider_view =
  v_mcp_server_id :: string
  v_provider_name :: string
  v_client_id :: string
  v_client_secret_hint :: string
  v_client_secret_updated_at :: nat
  v_redirect_uri :: string
  v_auth_url :: string
  v_token_url :: string
  v_scopes :: "string list"
  v_additional_config :: 'j

text \<open>
  Modelled from the spec: \<open>upsert(server_id, config)\<close>. The fields \<open>client_id\<close>,
  \<open>auth_url\<close>, \<open>token_url\<close> and \<open>redirect_uri\<close> must not be empty; \<open>client_secret\<close> is
  required on create and optional on update, where its absence retains the stored value.
  A secret that is given is encrypted before it is stored.
\<close>

definition upsert ::
  "(string \<Rightarrow> 'c) \<Rightarrow> (string \<Rightarrow> string) \<Rightarrow> nat \<Rightarrow> string \<Rightarrow> 'j provider_body
     \<Rightarrow> (string \<rightharpoonup> ('c, 'j) oauth_provider_config)
     \<Rightarrow> broker_error + (string \<rightharpoonup> ('c, 'j) oauth_provider_config)" where
  "upsert encrypt hint now server_id body db =
     (if b_client_id body = [] \<or> b_auth_url body = [] \<or> b_token_url body = []
         \<or> b_redirect_uri body = [] then Inl ValidationError
      else
        (case db server_id of
           None \<Rightarrow>
             (case b_client_secret body of
                None \<Rightarrow> Inl ValidationError
              | Some secret \<Rightarrow>
                  Inr (db(server_id \<mapsto>
                    \<lparr>mcp_server_id = server_id,
                     provider_name = b_provider_name body,
                     client_id = b_client_id body,
                     client_secret = encrypt secret,
                     client_secret_hint = hint secret,
                     client_secret_updated_at = now,
                     redirect_uri = b_redirect_uri body,
                     auth_url = b_auth_url body,
                     token_url = b_token_url body,
                     scopes = b_scopes body,
                     additional_config = b_additional_config body\<rparr>)))
         | Some old \<Rightarrow>
             (let updated = old\<lparr>provider_name := b_provider_name body,
                                client_id := b_client_id body,
                                redirect_uri := b_redirect_uri body,
                                auth_url := b_auth_url body,
                                token_url := b_token_url body,
                                scopes := b_scopes body,
                                additional_config := b_additional_config body\<rparr>
              in case b_client_secret body of
                   None \<Rightarrow> Inr (db(server_id \<mapsto> updated))
                 | Some secret \<Rightarrow>
                     Inr (db(server_id \<mapsto>
                       updated\<lparr>client_secret := encrypt secret,
                               client_secret_hint := hint secret,
                               client_secret_updated_at := now\<rparr>)))))"

text \<open>
  Modelled from the spec: the read endpoint of a provider configuration returns the
  configuration with the hint and the update timestamp in place of the secret.
\<close>

definition provider_view_of :: "('c, 'j) oauth_provider_config \<Rightarrow> 'j provider_view" where
  "provider_view_of c =
     \<lparr>v_mcp_server_id = mcp_server_id c,
      v_provider_name = provider_name c,
      v_client_id = client_id c,
      v_client_secret_hint = client_secret_hint c,
      v_client_secret_updated_at = client_secret_updated_at c,
      v_redirect_uri = redirect_uri c,
      v_auth_url = auth_url c,
      v_token_url = token_url c,
      v_scopes = scopes c,
      v_additional_config = additional_config c\<rparr>"

definition read_provider ::
  "(string \<rightharpoonup> ('c, 'j) oauth_provider_config) \<Rightarrow> string \<Rightarrow> broker_error + 'j provider_view" where
  "read_provider db server_id =
     (case db server_id of
        None \<Rightarrow> Inl ProviderNotConfigured
      | Some c \<Rightarrow> Inr (provider_view_of c))"

text \<open>
  Modelled from the spec: \<open>resolve(server_id)\<close>; a stored configuration overrides the
  environment's default, and the lack of both is \<open>ProviderNotConfigured\<close>.
\<close>

definition resolve ::
  "(string \<rightharpoonup> ('c, 'j) oauth_provider_config) \<Rightarrow> (string \<rightharpoonup> ('c, 'j) oauth_provider_config)
     \<Rightarrow> string \<Rightarrow> broker_error + ('c, 'j) oauth_provider_config" where
  "resolve env db server_id =
     (case db server_id of
        Some c \<Rightarrow> Inr c
      | None \<Rightarrow> (case env server_id of Some c \<Rightarrow> Inr c | None \<Rightarrow> Inl ProviderNotConfigured))"

subsection \<open>Authorization Flow Engine\<close>

text \<open>
  Modelled from the spec: the Authorization Flow Engine (\<open>beginAuthorization\<close>,
  \<open>handleCallback\<close>, \<open>disconnect\<close>) with its pending \<open>state\<close> tokens and
  \<open>UserServerGrant\<close> rows is missing from the sources. The store maps each issued state
  token to the user and server it was issued for and to its expiry, and each
  (user, server) pair to its grant. The random state, the clock, the TTL, the Vault's
  \<open>encrypt\<close> and the provider's token endpoint are parameters.
\<close>

record pending_state =
  ps_user :: string
  ps_server :: string
  ps_expires_at :: nat

record 'c user_server_grant =
  is_authorized :: bool
  access_token :: "'c option"
  refresh_token :: "'c option"
  expires_at :: "nat option"
  authorized_at :: nat

record 'c flow_store =
  pending :: "string \<rightharpoonup> pending_state"
  grants :: "string \<times> string \<rightharpoonup> 'c user_server_grant"

record token_response =
  tr_access_token :: string
  tr_refresh_token :: "string option"
  tr_expires_in :: "nat option"

record authorize_url =
  au_auth_url :: string
  au_client_id :: string
  au_redirect_uri :: string
  au_scopes :: "string list"
  au_state :: string

record ('c, 'j) flow_env =
  env_resolve :: "string \<Rightarrow> broker_error + ('c, 'j) oauth_provider_config"
  env_ttl :: nat
  env_encrypt :: "string \<Rightarrow> 'c"
  env_exchange :: "string \<Rightarrow> string \<Rightarrow> string + token_response"

text \<open>
  Modelled from the spec: \<open>beginAuthorization(user, server)\<close> resolves the provider,
  stores the fresh state with its expiry for (user, server) and returns the authorize
  URL; it writes no token.
\<close>

definition beginAuthorization ::
  "('c, 'j) flow_env \<Rightarrow> nat \<Rightarrow> string \<Rightarrow> string \<Rightarrow> string \<Rightarrow> 'c flow_store
     \<Rightarrow> (broker_error + authorize_url) \<times> 'c flow_store" where
  "beginAuthorization env now random u server store =
     (case env_resolve env server of
        Inl e \<Rightarrow> (Inl e, store)
      | Inr cfg \<Rightarrow>
          (Inr \<lparr>au_auth_url = auth_url cfg, au_client_id = client_id cfg,
                au_redirect_uri = redirect_uri cfg, au_scopes = scopes cfg,
                au_state = random\<rparr>,
           store\<lparr>pending := (pending store)(random \<mapsto>
             \<lparr>ps_user = u, ps_server = server, ps_expires_at = now + env_ttl env\<rparr>)\<rparr>))"

text \<open>
  Modelled from the spec: \<open>handleCallback(server, code, state)\<close> fails with
  \<open>InvalidState\<close> when the state is missing, was not issued, has expired or was issued for
  another server; it fails with \<open>ProviderError\<close>, carrying the provider's description,
  when the callback reports an error or the code exchange fails; otherwise it writes the
  whole grant with the tokens encrypted.
\<close>

definition handleCallback ::
  "('c, 'j) flow_env \<Rightarrow> nat \<Rightarrow> string \<Rightarrow> string \<Rightarrow> string option
     \<Rightarrow> (string \<times> string option) option \<Rightarrow> 'c flow_store
     \<Rightarrow> (broker_error + unit) \<times> 'c flow_store" where
  "handleCallback env now server code cb_state cb_error store =
     (case cb_state of
        None \<Rightarrow> (Inl InvalidState, store)
      | Some s \<Rightarrow>
          (case pending store s of
             None \<Rightarrow> (Inl InvalidState, store)
           | Some p \<Rightarrow>
               if ps_expires_at p \<le> now \<or> ps_server p \<noteq> server then (Inl InvalidState, store)
               else
                 (case cb_error of
                    Some (err, description) \<Rightarrow>
                      (Inl (ProviderError (case description of Some d \<Rightarrow> d | None \<Rightarrow> err)), store)
                  | None \<Rightarrow>
                      (case env_exchange env server code of
                         Inl failure \<Rightarrow> (Inl (ProviderError failure), store)
                       | Inr t \<Rightarrow>
                           (Inr (),
                            store\<lparr>grants := (grants store)((ps_user p, server) \<mapsto>
                              \<lparr>is_authorized = True,
                               access_token = Some (env_encrypt env (tr_access_token t)),
                               refresh_token = map_option (env_encrypt env) (tr_refresh_token t),
                               expires_at = map_option (\<lambda>d. now + d) (tr_expires_in t),
                               authorized_at = now\<rparr>)\<rparr>)))))"

text \<open>
  Modelled from the spec: \<open>disconnect(user, server)\<close> clears the token fields of the grant
  and sets \<open>is_authorized\<close> to false, keeping \<open>authorized_at\<close>; it is idempotent.
\<close>

definition disconnect :: "string \<Rightarrow> string \<Rightarrow> 'c flow_store \<Rightarrow> 'c flow_store" where
  "disconnect u server store =
     (case grants store (u, server) of
        None \<Rightarrow> store
      | Some g \<Rightarrow>
          store\<lparr>grants := (grants store)((u, server) \<mapsto>
            g\<lparr>is_authorized := False, access_token := None, refresh_token := None,
              expires_at := None\<rparr>)\<rparr>)"

text \<open>
  Histories of the flow store: any sequence of the three operations from the empty store,
  together with the state tokens that \<open>beginAuthorization\<close> has handed out so far.
\<close>

datatype flow_op =
    Begin nat string string string
  | Callback nat string string "string option" "(string \<times> string option) option"
  | Disconnect string string

definition empty_store :: "'c flow_store" where
  "empty_store = \<lparr>pending = Map.empty, grants = Map.empty\<rparr>"

fun flow_step ::
  "('c, 'j) flow_env \<Rightarrow> 'c flow_store \<times> string list \<Rightarrow> flow_op \<Rightarrow> 'c flow_store \<times> string list" where
  "flow_step env (store, issued) (Begin now random u server) =
     (case beginAuthorization env now random u server store of
        (Inl e, store') \<Rightarrow> (store', issued)
      | (Inr link, store') \<Rightarrow> (store', au_state link # issued))"
| "flow_step env (store, issued) (Callback now server code cb_state cb_error) =
     (snd (handleCallback env now server code cb_state cb_error store), issued)"
| "flow_step env (store, issued) (Disconnect u server) = (disconnect u server store, issued)"

definition flow_history ::
  "('c, 'j) flow_env \<Rightarrow> flow_op list \<Rightarrow> 'c flow_store \<times> string list" where
  "flow_history env ops = foldl (flow_step env) (empty_store, []) ops"

section \<open>Sample data\<close>

text \<open>An admin page with a user selected and two tools of one server.\<close>

definition sample_tools :: "tool_row list" where
  "sample_tools =
     [\<lparr>tool_id = ''create_issue'', org_enabled = False, user_override = Some True,
       effective_access = False\<rparr>,
      \<lparr>tool_id = ''list_repos'', org_enabled = True, user_override = None,
       effective_access = True\<rparr>]"

definition sample_admin :: "unit admin_users_state" where
  "sample_admin = \<lparr>selectedUser = Some ''a@b.com'', userTools = sample_tools, toasts = []\<rparr>"

text \<open>
  The same page holding a tool the organization has disabled and a tool it has enabled,
  each with a user override.
\<close>

definition override_tools :: "tool_row list" where
  "override_tools =
     [\<lparr>tool_id = ''create_issue'', org_enabled = False, user_override = Some True,
       effective_access = False\<rparr>,
      \<lparr>tool_id = ''delete_repo'', org_enabled = True, user_override = Some False,
       effective_access = False\<rparr>]"

definition override_admin :: "unit admin_users_state" where
  "override_admin =
     \<lparr>selectedUser = Some ''a@b.com'', userTools = override_tools, toasts = []\<rparr>"

text \<open>A valid password form, a page whose new password repeats the old one, and a user
  who still holds a temporary password (the hash is the identity here).\<close>

definition sample_form :: "char password_form" where
  "sample_form =
     \<lparr>oldPassword = ''temp1234'', newPassword = ''newpass99'', confirmPassword = ''newpass99''\<rparr>"

definition reused_page :: "char change_password_page" where
  "reused_page =
     \<lparr>form = \<lparr>oldPassword = ''temp1234'', newPassword = ''temp1234'',
               confirmPassword = ''temp1234''\<rparr>,
      cp_loading = False, cp_error = None, cp_success = False\<rparr>"

definition sample_user :: "string user" where
  "sample_user =
     \<lparr>uid = 1, user_email = ''a@b.com'', user_name = ''Ada'', user_role = Member,
      password_hash = Some ''temp1234'', auth_provider = ''admin'',
      password_expires_at = Some 86400, must_change_password = True\<rparr>"

text \<open>Axios errors for two replies, and a server that always accepts.\<close>

definition unauthorized :: axios_error where
  "unauthorized =
     \<lparr>config = \<lparr>url = None, retry = False\<rparr>,
      response = Some \<lparr>status = 401, detail = Some ''Not authenticated''\<rparr>,
      status_prop = Some 401,
      message = ''Request failed with status code 401''\<rparr>"

definition payment_required :: axios_error where
  "payment_required =
     \<lparr>config = \<lparr>url = None, retry = False\<rparr>,
      response = Some \<lparr>status = 402, detail = Some ''Teams require Enterprise Edition''\<rparr>,
      status_prop = Some 402,
      message = ''Request failed with status code 402''\<rparr>"

definition accepting :: "'b \<Rightarrow> settlement" where
  "accepting body = Resolved"

text \<open>
  A request to a protected endpoint, the client at rest and with a refresh in flight, a
  session whose every call is answered 401 while the refresh endpoint (network calls 1
  and 3) succeeds, and an endpoint that answers 402.
\<close>

definition servers_request :: request_config where
  "servers_request = \<lparr>url = Some ''/api/servers/me'', retry = False\<rparr>"

definition idle :: client_state where
  "idle = \<lparr>isRefreshing = False, refreshSubscribers = []\<rparr>"

definition refresh_in_flight :: client_state where
  "refresh_in_flight = \<lparr>isRefreshing = True, refreshSubscribers = []\<rparr>"

definition expired_session :: "nat \<Rightarrow> net_reply" where
  "expired_session k = (if k = 1 \<or> k = 3 then Success else Failure unauthorized)"

definition gated_endpoint :: "nat \<Rightarrow> net_reply" where
  "gated_endpoint k = Failure payment_required"

text \<open>A request to the logout endpoint, and a session in which every call, the refresh
  included, is answered 401.\<close>

definition logout_request :: request_config where
  "logout_request = \<lparr>url = Some ''/api/auth/logout'', retry = False\<rparr>"

definition dead_session :: "nat \<Rightarrow> net_reply" where
  "dead_session k = Failure unauthorized"

text \<open>The empty token table.\<close>

definition no_tokens :: "string mcp_access_token list" where
  "no_tokens = []"

text \<open>
  A stand-in for the Vault's \<open>encrypt\<close>, a hint of the last four characters, a stored
  provider configuration, the Admin page's form when an edit starts and its update body,
  and a settings modal whose secret field is not in edit mode.
\<close>

definition marked :: "string \<Rightarrow> string" where
  "marked s = ''enc:'' @ s"

definition last4 :: "string \<Rightarrow> string" where
  "last4 s = drop (length s - 4) s"

definition github_config :: "(string, (string \<times> string) list) oauth_provider_config" where
  "github_config =
     \<lparr>mcp_server_id = ''github-mcp'', provider_name = ''github'', client_id = ''Iv1.abc'',
      client_secret = marked ''s3cr3t-0001'', client_secret_hint = last4 ''s3cr3t-0001'',
      client_secret_updated_at = 5,
      redirect_uri = ''https://gw/servers/github-mcp/auth-callback'',
      auth_url = ''https://github.com/login/oauth/authorize'',
      token_url = ''https://github.com/login/oauth/access_token'',
      scopes = [''repo''], additional_config = []\<rparr>"

definition registry :: "string \<rightharpoonup> (string, (string \<times> string) list) oauth_provider_config" where
  "registry = Map.empty(''github-mcp'' \<mapsto> github_config)"

definition edit_form :: oauth_form where
  "edit_form =
     \<lparr>f_mcp_server_id = ''github-mcp'', f_provider_name = ''github'', f_client_id = ''Iv1.xyz'',
      f_client_secret = [],
      f_redirect_uri = ''https://gw/servers/github-mcp/auth-callback'',
      f_auth_url = ''https://github.com/login/oauth/authorize'',
      f_token_url = ''https://github.com/login/oauth/access_token'',
      f_scopes = ''repo, user'', f_additional_config = ''{}''\<rparr>"

definition parse_empty_object :: "string \<Rightarrow> (string \<times> string) list option" where
  "parse_empty_object s = (if s = ''{}'' then Some [] else None)"

definition edit_body :: "(string \<times> string) list provider_body" where
  "edit_body =
     \<lparr>b_provider_name = ''github'', b_client_id = ''Iv1.xyz'', b_client_secret = None,
      b_redirect_uri = ''https://gw/servers/github-mcp/auth-callback'',
      b_auth_url = ''https://github.com/login/oauth/authorize'',
      b_token_url = ''https://github.com/login/oauth/access_token'',
      b_scopes = [''repo'', ''user''], b_additional_config = []\<rparr>"

definition closed_modal :: "string list settings_modal" where
  "closed_modal =
     \<lparr>credentials = \<lparr>c_client_id = Some ''Iv1.abc'', c_redirect_uri = None, c_scopes = [''repo''],
                      c_client_secret_hint = Some ''0001'', c_client_secret_configured = True,
                      c_client_secret_updated_at = Some 5\<rparr>,
      secretEditMode = False, newSecret = ''typed-but-cancelled''\<rparr>"

text \<open>
  A flow environment over the registry above, whose provider accepts one code, and the
  store after a single authorization was begun at time 100 with a TTL of 600.
\<close>

definition stub_exchange :: "string \<Rightarrow> string \<Rightarrow> string + token_response" where
  "stub_exchange server code =
     (if code = ''good-code''
      then Inr \<lparr>tr_access_token = ''gho_1'', tr_refresh_token = None, tr_expires_in = None\<rparr>
      else Inl ''bad_verification_code'')"

definition sample_flow_env :: "(string, (string \<times> string) list) flow_env" where
  "sample_flow_env =
     \<lparr>env_resolve = resolve Map.empty registry, env_ttl = 600, env_encrypt = marked,
      env_exchange = stub_exchange\<rparr>"

definition one_begin :: "flow_op list" where
  "one_begin = [Begin 100 ''st-1'' ''a@b.com'' ''github-mcp'']"

definition after_begin :: "string flow_store" where
  "after_begin =
     \<lparr>pending = Map.empty(''st-1'' \<mapsto>
        \<lparr>ps_user = ''a@b.com'', ps_server = ''github-mcp'', ps_expires_at = 700\<rparr>),
      grants = Map.empty\<rparr>"

section \<open>Per-user tool access: effective access and overrides\<close>

lemma toggled_row_spec:
  "user_override (toggled_row cur t) = Some (\<not> cur) \<and>
   org_enabled (toggled_row cur t) = org_enabled t \<and>
   tool_id (toggled_row cur t) = tool_id t \<and>
   effective_access (toggled_row cur t) = effectiveAccess_spec (org_enabled t) (Some (\<not> cur))"
  by (simp add: toggled_row_def effectiveAccess_spec_def)

lemma reverted_row_spec:
  "user_override (reverted_row t) = None \<and>
   org_enabled (reverted_row t) = org_enabled t \<and>
   tool_id (reverted_row t) = tool_id t \<and>
   effective_access (reverted_row t) = org_enabled t"
  by (simp add: reverted_row_def)

lemma userTools_toggle:
  "selectedUser st = Some e \<Longrightarrow>
   userTools (toggleUserTool Resolved tid cur st) =
     map (\<lambda>tool. if tool_id tool = tid then toggled_row cur tool else tool) (userTools st)"
  by (simp add: toggleUserTool_def)

lemma userTools_remove:
  "selectedUser st = Some e \<Longrightarrow>
   userTools (removeUserOverride Resolved tid st) =
     map (\<lambda>tool. if tool_id tool = tid then reverted_row tool else tool) (userTools st)"
  by (simp add: removeUserOverride_def)

lemma sample_admin_selected: "selectedUser sample_admin = Some ''a@b.com''"
  by (simp add: sample_admin_def)

lemma sample_admin_tools: "userTools sample_admin = sample_tools"
  by (simp add: sample_admin_def)

lemma toggled_row_consistent: "row_consistent (toggled_row cur t)"
  by (simp add: row_consistent_def toggled_row_spec)

lemma reverted_row_consistent: "row_consistent (reverted_row t)"
  by (simp add: row_consistent_def reverted_row_spec effectiveAccess_spec_def)

lemma toggle_map_consistent:
  "list_all row_consistent tools \<Longrightarrow>
   list_all row_consistent
     (map (\<lambda>tool. if tool_id tool = tid then toggled_row cur tool else tool) tools)"
  by (induction tools) (simp_all add: toggled_row_consistent)

lemma remove_map_consistent:
  "list_all row_consistent tools \<Longrightarrow>
   list_all row_consistent
     (map (\<lambda>tool. if tool_id tool = tid then reverted_row tool else tool) tools)"
  by (induction tools) (simp_all add: reverted_row_consistent)

lemma toggle_tools_cases:
  "userTools (toggleUserTool put tid cur st) = userTools st \<or>
   userTools (toggleUserTool put tid cur st) =
     map (\<lambda>tool. if tool_id tool = tid then toggled_row cur tool else tool) (userTools st)"
proof (cases "selectedUser st")
  case None
  then show ?thesis by (simp add: toggleUserTool_def)
next
  case (Some e)
  show ?thesis
  proof (cases put)
    case Resolved
    with Some show ?thesis by (simp add: userTools_toggle)
  next
    case (Rejected r)
    with Some show ?thesis by (simp add: toggleUserTool_def)
  next
    case NeverSettles
    with Some show ?thesis by (simp add: toggleUserTool_def)
  qed
qed


lemma remove_tools_cases:
  "userTools (removeUserOverride del tid st) = userTools st \<or>
   userTools (removeUserOverride del tid st) =
     map (\<lambda>tool. if tool_id tool = tid then reverted_row tool else tool) (userTools st)"
proof (cases "selectedUser st")
  case None
  then show ?thesis by (simp add: removeUserOverride_def)
next
  case (Some e)
  show ?thesis
  proof (cases del)
    case Resolved
    with Some show ?thesis by (simp add: userTools_remove)
  next
    case (Rejected r)
    with Some show ?thesis by (simp add: removeUserOverride_def)
  next
    case NeverSettles
    with Some show ?thesis by (simp add: removeUserOverride_def)
  qed
qed

lemma toggle_keeps_consistency:
  assumes "list_all row_consistent (userTools st)"
  shows "list_all row_consistent (userTools (toggleUserTool put tid cur st))"
proof (rule disjE [OF toggle_tools_cases [of put tid cur st]])
  assume "userTools (toggleUserTool put tid cur st) = userTools st"
  with assms show ?thesis by simp
next
  assume "userTools (toggleUserTool put tid cur st) =
     map (\<lambda>tool. if tool_id tool = tid then toggled_row cur tool else tool) (userTools st)"
  with toggle_map_consistent [OF assms, of tid cur] show ?thesis by simp
qed

lemma remove_keeps_consistency:
  assumes "list_all row_consistent (userTools st)"
  shows "list_all row_consistent (userTools (removeUserOverride del tid st))"
proof (rule disjE [OF remove_tools_cases [of del tid st]])
  assume "userTools (removeUserOverride del tid st) = userTools st"
  with assms show ?thesis by simp
next
  assume "userTools (removeUserOverride del tid st) =
     map (\<lambda>tool. if tool_id tool = tid then reverted_row tool else tool) (userTools st)"
  with remove_map_consistent [OF assms, of tid] show ?thesis by simp
qed

lemma reverted_row_forgets:
  "reverted_row (tool\<lparr>user_override := ov, effective_access := ea\<rparr>) = reverted_row tool"
  by (simp add: reverted_row_def)

lemma remove_forgets_override:
  "map (\<lambda>tool. if tool_id tool = tid then reverted_row tool else tool)
     (map (\<lambda>tool. if tool_id tool = tid
                   then tool\<lparr>user_override := ov, effective_access := ea\<rparr> else tool) tools)
   = map (\<lambda>tool. if tool_id tool = tid then reverted_row tool else tool) tools"
  by (induction tools) (simp_all add: reverted_row_forgets)

lemma remove_keeps_org_flags:
  "map org_enabled (map (\<lambda>tool. if tool_id tool = tid then reverted_row tool else tool) tools)
     = map org_enabled tools"
  by (induction tools) (simp_all add: reverted_row_def)

lemma removed_rows:
  "r \<in> set (map (\<lambda>tool. if tool_id tool = tid then reverted_row tool else tool) tools) \<Longrightarrow>
   tool_id r = tid \<Longrightarrow> user_override r = None \<and> effective_access r = org_enabled r"
proof (induction tools)
  case Nil
  then show ?case by simp
next
  case (Cons t tools)
  show ?case
  proof (cases "r = (if tool_id t = tid then reverted_row t else t)")
    case True
    with Cons.prems(2) have "r = reverted_row t"
      by (cases "tool_id t = tid") simp_all
    then show ?thesis by (simp add: reverted_row_spec)
  next
    case False
    with Cons.prems(1)
    have "r \<in> set (map (\<lambda>tool. if tool_id tool = tid then reverted_row tool else tool) tools)"
      by simp
    then show ?thesis using Cons.IH Cons.prems(2) by blast
  qed
qed

lemma toggled_row_eq:
  "toggled_row cur t =
     t\<lparr>user_override := Some (\<not> cur),
       effective_access := effectiveAccess_spec (org_enabled t) (Some (\<not> cur))\<rparr>"
  by (simp add: toggled_row_def effectiveAccess_spec_def)

lemma reverted_row_eq:
  "reverted_row t =
     t\<lparr>user_override := None, effective_access := effectiveAccess_spec (org_enabled t) None\<rparr>"
  by (simp add: reverted_row_def effectiveAccess_spec_def)

lemma toggle_keeps_org_flags:
  "map org_enabled (map (\<lambda>tool. if tool_id tool = tid then toggled_row cur tool else tool) tools)
     = map org_enabled tools"
  by (induction tools) (simp_all add: toggled_row_def)

lemma toggled_rows:
  "r \<in> set (map (\<lambda>tool. if tool_id tool = tid then toggled_row cur tool else tool) tools) \<Longrightarrow>
   tool_id r = tid \<Longrightarrow>
   user_override r = Some (\<not> cur) \<and>
   effective_access r = effectiveAccess_spec (org_enabled r) (user_override r)"
proof (induction tools)
  case Nil
  then show ?case by simp
next
  case (Cons t tools)
  show ?case
  proof (cases "r = (if tool_id t = tid then toggled_row cur t else t)")
    case True
    with Cons.prems(2) have "r = toggled_row cur t"
      by (cases "tool_id t = tid") simp_all
    then show ?thesis by (simp add: toggled_row_spec)
  next
    case False
    with Cons.prems(1)
    have "r \<in> set (map (\<lambda>tool. if tool_id tool = tid then toggled_row cur tool else tool) tools)"
      by simp
    then show ?thesis using Cons.IH Cons.prems(2) by blast
  qed
qed

lemma spec_formula:
  "effectiveAccess_spec False ov = False" "effectiveAccess_spec True None = True"
  "effectiveAccess_spec True (Some b) = b"
  by (simp_all add: effectiveAccess_spec_def)

text \<open>
  C1. The effective access that the admin page computes for a (user, tool) row is the one
  the specification prescribes, taken at the organization flag the row had: after
  \<open>toggleUserTool\<close> the rows of the tool carry the new override and the specification's
  value for the unchanged organization flag and that override; after
  \<open>removeUserOverride\<close> they carry no override and the specification's value for the
  unchanged organization flag; every other row, and every organization flag, is as
  before. The specification's value is false when the organization flag is off, whatever
  the override; otherwise the override's value when there is one; otherwise true. So a
  tool that the organization has disabled is not accessible even with an override of
  \<open>true\<close>. When every row the page holds is consistent with the specification's formula,
  so is every row after either handler, however the request ends.
\<close>

theorem effective_access_decision:
  "(selectedUser st = Some e \<longrightarrow>
     userTools (toggleUserTool Resolved tid cur st) =
       map (\<lambda>tool. if tool_id tool = tid
                     then tool\<lparr>user_override := Some (\<not> cur),
                              effective_access :=
                                effectiveAccess_spec (org_enabled tool) (Some (\<not> cur))\<rparr>
                     else tool) (userTools st) \<and>
     userTools (removeUserOverride Resolved tid st) =
       map (\<lambda>tool. if tool_id tool = tid
                     then tool\<lparr>user_override := None,
                              effective_access := effectiveAccess_spec (org_enabled tool) None\<rparr>
                     else tool) (userTools st) \<and>
     map org_enabled (userTools (toggleUserTool Resolved tid cur st)) =
       map org_enabled (userTools st) \<and>
     map org_enabled (userTools (removeUserOverride Resolved tid st)) =
       map org_enabled (userTools st) \<and>
     (\<forall>r \<in> set (userTools (toggleUserTool Resolved tid cur st)).
        tool_id r = tid \<longrightarrow>
          user_override r = Some (\<not> cur) \<and>
          effective_access r = effectiveAccess_spec (org_enabled r) (user_override r) \<and>
          (\<not> org_enabled r \<longrightarrow> \<not> effective_access r)) \<and>
     (\<forall>r \<in> set (userTools (removeUserOverride Resolved tid st)).
        tool_id r = tid \<longrightarrow>
          user_override r = None \<and>
          effective_access r = effectiveAccess_spec (org_enabled r) (user_override r) \<and>
          (\<not> org_enabled r \<longrightarrow> \<not> effective_access r))) \<and>
   (list_all row_consistent (userTools st) \<longrightarrow>
      list_all row_consistent (userTools (toggleUserTool put tid cur st)) \<and>
      list_all row_consistent (userTools (removeUserOverride del tid st))) \<and>
   effectiveAccess_spec False ov = False \<and>
   effectiveAccess_spec True None = True \<and>
   effectiveAccess_spec True (Some b) = b"
proof (intro conjI impI)
  assume sel: "selectedUser st = Some e"
  show "userTools (toggleUserTool Resolved tid cur st) =
       map (\<lambda>tool. if tool_id tool = tid
                     then tool\<lparr>user_override := Some (\<not> cur),
                              effective_access :=
                                effectiveAccess_spec (org_enabled tool) (Some (\<not> cur))\<rparr>
                     else tool) (userTools st)"
    by (simp only: userTools_toggle [OF sel] toggled_row_eq)
  show "userTools (removeUserOverride Resolved tid st) =
       map (\<lambda>tool. if tool_id tool = tid
                     then tool\<lparr>user_override := None,
                              effective_access := effectiveAccess_spec (org_enabled tool) None\<rparr>
                     else tool) (userTools st)"
    by (simp only: userTools_remove [OF sel] reverted_row_eq)
  show "map org_enabled (userTools (toggleUserTool Resolved tid cur st)) =
       map org_enabled (userTools st)"
    by (subst userTools_toggle [OF sel]) (rule toggle_keeps_org_flags)
  show "map org_enabled (userTools (removeUserOverride Resolved tid st)) =
       map org_enabled (userTools st)"
    by (subst userTools_remove [OF sel]) (rule remove_keeps_org_flags)
  show "\<forall>r \<in> set (userTools (toggleUserTool Resolved tid cur st)).
        tool_id r = tid \<longrightarrow>
          user_override r = Some (\<not> cur) \<and>
          effective_access r = effectiveAccess_spec (org_enabled r) (user_override r) \<and>
          (\<not> org_enabled r \<longrightarrow> \<not> effective_access r)"
  proof (intro ballI impI)
    fix r
    assume "r \<in> set (userTools (toggleUserTool Resolved tid cur st))" and t: "tool_id r = tid"
    then have "r \<in> set (map (\<lambda>tool. if tool_id tool = tid then toggled_row cur tool else tool)
                          (userTools st))"
      by (simp only: userTools_toggle [OF sel])
    from toggled_rows [OF this t]
    show "user_override r = Some (\<not> cur) \<and>
          effective_access r = effectiveAccess_spec (org_enabled r) (user_override r) \<and>
          (\<not> org_enabled r \<longrightarrow> \<not> effective_access r)"
      by (simp add: spec_formula)
  qed
  show "\<forall>r \<in> set (userTools (removeUserOverride Resolved tid st)).
        tool_id r = tid \<longrightarrow>
          user_override r = None \<and>
          effective_access r = effectiveAccess_spec (org_enabled r) (user_override r) \<and>
          (\<not> org_enabled r \<longrightarrow> \<not> effective_access r)"
  proof (intro ballI impI)
    fix r
    assume "r \<in> set (userTools (removeUserOverride Resolved tid st))" and t: "tool_id r = tid"
    then have "r \<in> set (map (\<lambda>tool. if tool_id tool = tid then reverted_row tool else tool)
                          (userTools st))"
      by (simp only: userTools_remove [OF sel])
    from removed_rows [OF this t]
    show "user_override r = None \<and>
          effective_access r = effectiveAccess_spec (org_enabled r) (user_override r) \<and>
          (\<not> org_enabled r \<longrightarrow> \<not> effective_access r)"
      by (simp add: effectiveAccess_spec_def)
  qed
next
  assume "list_all row_consistent (userTools st)"
  then show "list_all row_consistent (userTools (toggleUserTool put tid cur st))"
    "list_all row_consistent (userTools (removeUserOverride del tid st))"
    by (rule toggle_keeps_consistency, rule remove_keeps_consistency)
next
  show "effectiveAccess_spec False ov = False" "effectiveAccess_spec True None = True"
    "effectiveAccess_spec True (Some b) = b"
    by (rule spec_formula)+
qed

lemma override_admin_selected: "selectedUser override_admin = Some ''a@b.com''"
  by (simp add: override_admin_def)

lemma override_admin_tools: "userTools override_admin = override_tools"
  by (simp add: override_admin_def)

lemma override_tools_consistent: "list_all row_consistent override_tools"
  by (simp add: override_tools_def row_consistent_def effectiveAccess_spec_def)

theorem effective_access_decision_witness:
  "selectedUser override_admin = Some ''a@b.com'' \<and>
   list_all row_consistent (userTools override_admin) \<and>
   userTools (toggleUserTool Resolved ''delete_repo'' False override_admin) =
     [\<lparr>tool_id = ''create_issue'', org_enabled = False, user_override = Some True,
       effective_access = False\<rparr>,
      \<lparr>tool_id = ''delete_repo'', org_enabled = True, user_override = Some True,
       effective_access = True\<rparr>] \<and>
   userTools (toggleUserTool Resolved ''create_issue'' True override_admin) =
     [\<lparr>tool_id = ''create_issue'', org_enabled = False, user_override = Some False,
       effective_access = False\<rparr>,
      \<lparr>tool_id = ''delete_repo'', org_enabled = True, user_override = Some False,
       effective_access = False\<rparr>] \<and>
   userTools (removeUserOverride Resolved ''delete_repo'' override_admin) =
     [\<lparr>tool_id = ''create_issue'', org_enabled = False, user_override = Some True,
       effective_access = False\<rparr>,
      \<lparr>tool_id = ''delete_repo'', org_enabled = True, user_override = None,
       effective_access = True\<rparr>] \<and>
   list_all row_consistent (userTools (toggleUserTool Resolved ''delete_repo'' False override_admin)) \<and>
   list_all row_consistent (userTools (removeUserOverride Resolved ''delete_repo'' override_admin))"
proof -
  note on = effective_access_decision [where st = override_admin and e = "''a@b.com''"
      and tid = "''delete_repo''" and cur = False and put = Resolved and del = Resolved]
  note off = effective_access_decision [where st = override_admin and e = "''a@b.com''"
      and tid = "''create_issue''" and cur = True]
  have consistent: "list_all row_consistent (userTools override_admin)"
    by (simp add: override_admin_tools override_tools_consistent)
  have toggled_on:
    "userTools (toggleUserTool Resolved ''delete_repo'' False override_admin) =
     [\<lparr>tool_id = ''create_issue'', org_enabled = False, user_override = Some True,
       effective_access = False\<rparr>,
      \<lparr>tool_id = ''delete_repo'', org_enabled = True, user_override = Some True,
       effective_access = True\<rparr>]"
    by (simp add: on [THEN conjunct1, THEN mp, OF override_admin_selected, THEN conjunct1]
          override_admin_tools override_tools_def spec_formula)
  have toggled_off:
    "userTools (toggleUserTool Resolved ''create_issue'' True override_admin) =
     [\<lparr>tool_id = ''create_issue'', org_enabled = False, user_override = Some False,
       effective_access = False\<rparr>,
      \<lparr>tool_id = ''delete_repo'', org_enabled = True, user_override = Some False,
       effective_access = False\<rparr>]"
    by (simp add: off [THEN conjunct1, THEN mp, OF override_admin_selected, THEN conjunct1]
          override_admin_tools override_tools_def spec_formula)
  have cleared:
    "userTools (removeUserOverride Resolved ''delete_repo'' override_admin) =
     [\<lparr>tool_id = ''create_issue'', org_enabled = False, user_override = Some True,
       effective_access = False\<rparr>,
      \<lparr>tool_id = ''delete_repo'', org_enabled = True, user_override = None,
       effective_access = True\<rparr>]"
    by (simp add: on [THEN conjunct1, THEN mp, OF override_admin_selected, THEN conjunct2,
                      THEN conjunct1]
          override_admin_tools override_tools_def spec_formula)
  have kept:
    "list_all row_consistent (userTools (toggleUserTool Resolved ''delete_repo'' False override_admin))"
    "list_all row_consistent (userTools (removeUserOverride Resolved ''delete_repo'' override_admin))"
    using on [THEN conjunct2, THEN conjunct1, THEN mp, OF consistent] by simp_all
  show ?thesis
    by (intro conjI override_admin_selected consistent toggled_on toggled_off cleared kept)
qed

text \<open>
  C3. Clearing the override of a tool (\<open>removeUserOverride\<close>) leaves the organization
  flags as they were, removes the override and makes the effective access of the row equal
  to the organization flag; the result does not depend on the override and the effective
  access the row had before.
\<close>

theorem clear_override_reverts_to_org_default:
  "selectedUser st = Some e \<longrightarrow>
     map org_enabled (userTools (removeUserOverride Resolved tid st)) = map org_enabled (userTools st) \<and>
     (\<forall>r \<in> set (userTools (removeUserOverride Resolved tid st)).
        tool_id r = tid \<longrightarrow> user_override r = None \<and> effective_access r = org_enabled r) \<and>
     userTools (removeUserOverride Resolved tid
        (st\<lparr>userTools := map (\<lambda>tool. if tool_id tool = tid
                                      then tool\<lparr>user_override := ov, effective_access := ea\<rparr>
                                      else tool) (userTools st)\<rparr>))
       = userTools (removeUserOverride Resolved tid st)"
proof (intro impI conjI)
  assume sel: "selectedUser st = Some e"
  show "map org_enabled (userTools (removeUserOverride Resolved tid st)) = map org_enabled (userTools st)"
    by (subst userTools_remove [OF sel]) (rule remove_keeps_org_flags)
  show "\<forall>r \<in> set (userTools (removeUserOverride Resolved tid st)).
        tool_id r = tid \<longrightarrow> user_override r = None \<and> effective_access r = org_enabled r"
    by (subst userTools_remove [OF sel]) (blast dest: removed_rows)
  let ?tools' = "map (\<lambda>tool. if tool_id tool = tid
                              then tool\<lparr>user_override := ov, effective_access := ea\<rparr>
                              else tool) (userTools st)"
  have sel': "selectedUser (st\<lparr>userTools := ?tools'\<rparr>) = Some e" using sel by simp
  have tools': "userTools (st\<lparr>userTools := ?tools'\<rparr>) = ?tools'" by simp
  show "userTools (removeUserOverride Resolved tid (st\<lparr>userTools := ?tools'\<rparr>))
          = userTools (removeUserOverride Resolved tid st)"
    by (subst userTools_remove [OF sel'], subst userTools_remove [OF sel], subst tools')
       (rule remove_forgets_override)
qed

theorem clear_override_reverts_to_org_default_witness:
  "selectedUser sample_admin = Some ''a@b.com'' \<and>
   userTools (removeUserOverride Resolved ''create_issue'' sample_admin) =
     [\<lparr>tool_id = ''create_issue'', org_enabled = False, user_override = None,
       effective_access = False\<rparr>,
      \<lparr>tool_id = ''list_repos'', org_enabled = True, user_override = None,
       effective_access = True\<rparr>]"
  using clear_override_reverts_to_org_default [where st = sample_admin and e = "''a@b.com''" and tid = "''create_issue''"]
  by (simp add: userTools_remove [OF sample_admin_selected] sample_admin_selected
        sample_admin_tools sample_tools_def reverted_row_def)

section \<open>Changing a password\<close>

lemma validate_valid_iff:
  "isValid (validatePasswordChange f) \<longleftrightarrow>
     oldPassword f \<noteq> [] \<and> newPassword f \<noteq> [] \<and> confirmPassword f \<noteq> [] \<and>
     newPassword f = confirmPassword f \<and> 8 \<le> length (newPassword f) \<and>
     oldPassword f \<noteq> newPassword f"
  by (auto simp: validatePasswordChange_def)

lemma validate_error_iff:
  "error (validatePasswordChange f) = None \<longleftrightarrow> isValid (validatePasswordChange f)"
  by (simp add: validatePasswordChange_def)

lemma handleSubmit_invalid:
  "\<not> isValid (validatePasswordChange (form st)) \<Longrightarrow>
   handleSubmit post st = (None, st\<lparr>cp_error := error (validatePasswordChange (form st))\<rparr>)"
  by (simp add: handleSubmit_def Let_def)

lemma changePassword_Inr_iff:
  "changePassword H u old new = Inr u' \<longleftrightarrow>
     new \<noteq> old \<and> 8 \<le> length new \<and> password_hash u = Some (H old) \<and>
     u' = u\<lparr>password_hash := Some (H new), password_expires_at := None,
            must_change_password := False\<rparr>"
  by (auto simp: changePassword_def)

lemma sample_form_valid: "isValid (validatePasswordChange sample_form)"
  by (simp add: validate_valid_iff sample_form_def)

lemma reused_page_form:
  "newPassword (form reused_page) = oldPassword (form reused_page)"
  by (simp add: reused_page_def)

lemma sample_change:
  "changePassword id sample_user ''temp1234'' ''newpass99'' =
     Inr (sample_user\<lparr>password_hash := Some ''newpass99'', password_expires_at := None,
                      must_change_password := False\<rparr>)"
  by (simp add: changePassword_Inr_iff sample_user_def)

text \<open>
  C8. A password change can succeed only when the new password differs from the old one,
  has at least 8 characters and the old password is the user's current one. The form's
  validation accepts only inputs with \<open>new \<noteq> old\<close> and \<open>length new \<ge> 8\<close>; an input that
  violates either is rejected with a validation message, nothing is posted and the page
  does not reach success. The broker's \<open>changePassword\<close> rejects such input with
  \<open>ValidationError\<close>, succeeds only for the correct old password, and on success clears
  \<open>must_change_password\<close> and \<open>password_expires_at\<close>.
\<close>

theorem change_password_requirements:
  "(isValid (validatePasswordChange f) \<longrightarrow>
      newPassword f \<noteq> oldPassword f \<and> 8 \<le> length (newPassword f)) \<and>
   (newPassword (form st) = oldPassword (form st) \<or> length (newPassword (form st)) < 8 \<longrightarrow>
      \<not> isValid (validatePasswordChange (form st)) \<and>
      error (validatePasswordChange (form st)) \<noteq> None \<and>
      fst (handleSubmit post st) = None \<and>
      cp_error (snd (handleSubmit post st)) \<noteq> None \<and>
      cp_success (snd (handleSubmit post st)) = cp_success st) \<and>
   (changePassword H u old new = Inr u' \<longrightarrow>
      new \<noteq> old \<and> 8 \<le> length new \<and> password_hash u = Some (H old) \<and>
      \<not> must_change_password u' \<and> password_expires_at u' = None) \<and>
   (new = old \<or> length new < 8 \<longrightarrow> changePassword H u old new = Inl ValidationError)"
proof (intro conjI impI)
  assume "isValid (validatePasswordChange f)"
  then show "newPassword f \<noteq> oldPassword f" "8 \<le> length (newPassword f)"
    by (auto simp: validate_valid_iff)
next
  assume bad: "newPassword (form st) = oldPassword (form st) \<or> length (newPassword (form st)) < 8"
  then show inv: "\<not> isValid (validatePasswordChange (form st))"
    by (auto simp: validate_valid_iff)
  then show "error (validatePasswordChange (form st)) \<noteq> None"
    by (simp add: validate_error_iff)
  from inv show "fst (handleSubmit post st) = None"
    by (simp add: handleSubmit_invalid)
  from inv show "cp_error (snd (handleSubmit post st)) \<noteq> None"
    by (simp add: handleSubmit_invalid validate_error_iff)
  from inv show "cp_success (snd (handleSubmit post st)) = cp_success st"
    by (simp add: handleSubmit_invalid)
next
  assume "changePassword H u old new = Inr u'"
  then show "new \<noteq> old" "8 \<le> length new" "password_hash u = Some (H old)"
    "\<not> must_change_password u'" "password_expires_at u' = None"
    by (auto simp: changePassword_Inr_iff)
next
  assume "new = old \<or> length new < 8"
  then show "changePassword H u old new = Inl ValidationError"
    by (auto simp: changePassword_def)
qed

theorem change_password_requirements_witness:
  "isValid (validatePasswordChange sample_form) \<and>
   newPassword sample_form \<noteq> oldPassword sample_form \<and>
   8 \<le> length (newPassword sample_form) \<and>
   newPassword (form reused_page) = oldPassword (form reused_page) \<and>
   fst (handleSubmit accepting reused_page) = None \<and>
   cp_success (snd (handleSubmit accepting reused_page)) = cp_success reused_page \<and>
   changePassword id sample_user ''temp1234'' ''newpass99'' =
     Inr (sample_user\<lparr>password_hash := Some ''newpass99'', password_expires_at := None,
                      must_change_password := False\<rparr>) \<and>
   password_hash sample_user = Some (id ''temp1234'') \<and>
   changePassword id sample_user ''temp1234'' ''temp1234'' = Inl ValidationError"
  using change_password_requirements [where f = sample_form and st = reused_page
          and post = accepting and H = id and u = sample_user and old = "''temp1234''"
          and new = "''newpass99''"
          and u' = "sample_user\<lparr>password_hash := Some ''newpass99'',
                     password_expires_at := None, must_change_password := False\<rparr>"]
        change_password_requirements [where f = sample_form and u' = sample_user
          and st = reused_page and post = accepting and H = id and u = sample_user and old = "''temp1234''"
          and new = "''temp1234''"]
  by (simp add: sample_form_valid reused_page_form sample_change)

section \<open>The API client: token refresh and the enterprise signal\<close>

declare api_call.simps [simp del]

lemma startsWith_self: "startsWith s s"
  by (induction s) simp_all

lemma js_includes_self: "js_includes s s"
  by (cases s) (simp_all add: startsWith_self)

lemma listed_url_skipped:
  "url req = Some u \<Longrightarrow> u \<in> set skipRefreshUrls \<Longrightarrow> shouldSkipRefresh req"
  unfolding shouldSkipRefresh_def list_ex_iff
  by (rule bexI [of _ u]) (simp_all add: js_includes_self)

lemma onRejected_402:
  "response_status err = Some 402 \<Longrightarrow>
   interceptor_onRejected st err =
     (Reject (EnterpriseError (or_default (response_detail err) defaultEnterpriseMessage) err), st)"
  by (simp add: interceptor_onRejected_def)

lemma onRejected_passes:
  "response_status err \<noteq> Some 402 \<Longrightarrow>
   response_status err \<noteq> Some 401 \<or> retry (config err) \<or> shouldSkipRefresh (config err) \<Longrightarrow>
   interceptor_onRejected st err = (Reject (AxiosError err), st)"
  by (auto simp: interceptor_onRejected_def Let_def)

lemma onRejected_queues:
  "response_status err = Some 401 \<Longrightarrow> \<not> retry (config err) \<Longrightarrow>
   \<not> shouldSkipRefresh (config err) \<Longrightarrow> isRefreshing st \<Longrightarrow>
   interceptor_onRejected st err =
     (Enqueue, st\<lparr>refreshSubscribers := refreshSubscribers st @ [config err]\<rparr>)"
  by (simp add: interceptor_onRejected_def Let_def)

lemma onRejected_refreshes:
  "response_status err = Some 401 \<Longrightarrow> \<not> retry (config err) \<Longrightarrow>
   \<not> shouldSkipRefresh (config err) \<Longrightarrow> \<not> isRefreshing st \<Longrightarrow>
   interceptor_onRejected st err =
     (AwaitRefresh ((config err)\<lparr>retry := True\<rparr>), st\<lparr>isRefreshing := True\<rparr>)"
  by (simp add: interceptor_onRejected_def Let_def)

lemma onRejected_flag:
  "interceptor_onRejected st err = (Reject r, st') \<Longrightarrow>
   isEnterpriseFeature r \<longleftrightarrow> response_status err = Some 402"
  by (auto simp: interceptor_onRejected_def Let_def split: if_splits)

lemma response_status_config [simp]:
  "response_status (e\<lparr>config := req\<rparr>) = response_status e"
  by (simp add: response_status_def)

lemma response_detail_config [simp]:
  "response_detail (e\<lparr>config := req\<rparr>) = response_detail e"
  by (simp add: response_detail_def)

lemma outcome_resent [simp]: "outcome (resent r) = outcome r"
  and sends_resent [simp]: "sends (resent r) = Suc (sends r)"
  and refreshes_resent [simp]: "refreshes (resent r) = refreshes r"
  and outcome_refreshed [simp]: "outcome (refreshed r) = outcome r"
  and sends_refreshed [simp]: "sends (refreshed r) = sends r"
  and refreshes_refreshed [simp]: "refreshes (refreshed r) = Suc (refreshes r)"
  by (simp_all add: resent_def refreshed_def)

lemma api_call_success:
  "srv n = Success \<Longrightarrow>
   api_call srv n st req = \<lparr>outcome = Resolved, sends = 1, refreshes = 0, final_state = st\<rparr>"
  by (subst api_call.simps) simp

lemma api_call_rejects:
  "srv n = Failure e \<Longrightarrow> interceptor_onRejected st (e\<lparr>config := req\<rparr>) = (Reject r, st') \<Longrightarrow>
   api_call srv n st req = \<lparr>outcome = Rejected r, sends = 1, refreshes = 0, final_state = st'\<rparr>"
  by (subst api_call.simps) simp

lemma api_call_refresh_failed:
  "srv n = Failure e \<Longrightarrow>
   interceptor_onRejected st (e\<lparr>config := req\<rparr>) = (AwaitRefresh req', st') \<Longrightarrow>
   srv (Suc n) = Failure re \<Longrightarrow>
   api_call srv n st req =
     \<lparr>outcome = Rejected (AxiosError re), sends = 1, refreshes = 1,
      final_state = st'\<lparr>isRefreshing := False, refreshSubscribers := []\<rparr>\<rparr>"
  by (subst api_call.simps) (simp add: refreshFailed_def)

lemma api_call_refresh_succeeded:
  "srv n = Failure e \<Longrightarrow>
   interceptor_onRejected st (e\<lparr>config := req\<rparr>) = (AwaitRefresh req', st') \<Longrightarrow>
   srv (Suc n) = Success \<Longrightarrow>
   api_call srv n st req =
     refreshed (resent (api_call srv (Suc (Suc n)) (snd (refreshSucceeded st')) req'))"
  by (subst api_call.simps) simp

lemma api_call_queued_resumed:
  "srv n = Failure e \<Longrightarrow>
   interceptor_onRejected st (e\<lparr>config := req\<rparr>) =
     (Enqueue, st\<lparr>refreshSubscribers := refreshSubscribers st @ [req]\<rparr>) \<Longrightarrow>
   srv (Suc n) = Success \<Longrightarrow>
   api_call srv n st req =
     resent (api_call srv (Suc (Suc n))
       (snd (refreshSucceeded (st\<lparr>refreshSubscribers := refreshSubscribers st @ [req]\<rparr>))) req)"
  by (subst api_call.simps) (simp add: refreshSucceeded_def onRefreshed_def)

lemma api_call_queued:
  "srv n = Failure e \<Longrightarrow>
   interceptor_onRejected st (e\<lparr>config := req\<rparr>) = (Enqueue, st') \<Longrightarrow>
   outcome (api_call srv n st req) =
     (case srv (Suc n) of
        Success \<Rightarrow>
          (if req \<in> set (fst (refreshSucceeded st'))
           then outcome (api_call srv (Suc (Suc n)) (snd (refreshSucceeded st')) req)
           else NeverSettles)
      | Failure re \<Rightarrow> NeverSettles)"
  by (subst api_call.simps) (simp split: net_reply.splits)

lemma no_402_no_flag:
  "(\<forall>k e. srv k = Failure e \<longrightarrow> response_status e \<noteq> Some 402) \<Longrightarrow>
   outcome (api_call srv n st req) = Rejected r \<Longrightarrow> \<not> isEnterpriseFeature r"
proof (induction srv n st req rule: api_call.induct)
  case (1 srv n st req)
  show ?case
  proof (cases "srv n")
    case Success
    with "1.prems"(2) show ?thesis by (simp add: api_call_success)
  next
    case (Failure e)
    with "1.prems"(1) have no402: "response_status e \<noteq> Some 402" by blast
    obtain x y where xy: "interceptor_onRejected st (e\<lparr>config := req\<rparr>) = (x, y)"
      by force
    show ?thesis
    proof (cases x)
      case (Reject r')
      with Failure xy "1.prems"(2) have "r = r'" by (simp add: api_call_rejects)
      with onRejected_flag [of st "e\<lparr>config := req\<rparr>" r' y] xy Reject no402
      show ?thesis by simp
    next
      case Enqueue
      show ?thesis
      proof (cases "srv (Suc n)")
        case Success
        show ?thesis
        proof (cases "req \<in> set (fst (refreshSucceeded y))")
          case True
          with "1.prems"(2) api_call_queued [of srv n e st req y] Failure xy Enqueue Success
          have "outcome (api_call srv (n + 2) (snd (refreshSucceeded y)) req) = Rejected r"
            by simp
          with "1.IH"(1) [OF Failure xy [symmetric] Enqueue _ True "1.prems"(1)] Success
          show ?thesis by simp
        next
          case False
          with "1.prems"(2) api_call_queued [of srv n e st req y] Failure xy Enqueue Success
          show ?thesis by simp
        qed
      next
        case (Failure re)
        with "1.prems"(2) api_call_queued [of srv n e st req y] \<open>srv n = Failure e\<close> xy Enqueue
        show ?thesis by simp
      qed
    next
      case (AwaitRefresh req')
      show ?thesis
      proof (cases "srv (Suc n)")
        case Success
        with "1.prems"(2) api_call_refresh_succeeded [of srv n e st req req' y]
          Failure xy AwaitRefresh
        have "outcome (api_call srv (n + 2) (snd (refreshSucceeded y)) req') = Rejected r"
          by simp
        with "1.IH"(2) [OF Failure xy [symmetric] AwaitRefresh _ "1.prems"(1)] Success
        show ?thesis by simp
      next
        case (Failure re)
        with "1.prems"(2) api_call_refresh_failed [of srv n e st req req' y re]
          \<open>srv n = Failure e\<close> xy AwaitRefresh
        show ?thesis by auto
      qed
    qed
  qed
qed

lemma api_call_single_attempt:
  assumes "retry req \<or> shouldSkipRefresh req"
  shows "sends (api_call srv n st req) = 1 \<and> refreshes (api_call srv n st req) = 0 \<and>
         outcome (api_call srv n st req) \<noteq> NeverSettles \<and>
         final_state (api_call srv n st req) = st"
proof (cases "srv n")
  case Success
  then show ?thesis by (simp add: api_call_success)
next
  case (Failure e)
  show ?thesis
  proof (cases "response_status e = Some 402")
    case True
    then have "interceptor_onRejected st (e\<lparr>config := req\<rparr>) =
        (Reject (EnterpriseError (or_default (response_detail e) defaultEnterpriseMessage)
           (e\<lparr>config := req\<rparr>)), st)"
      using onRejected_402 [of "e\<lparr>config := req\<rparr>" st] by simp
    with Failure show ?thesis by (simp add: api_call_rejects)
  next
    case False
    then have "interceptor_onRejected st (e\<lparr>config := req\<rparr>) =
        (Reject (AxiosError (e\<lparr>config := req\<rparr>)), st)"
      using assms onRejected_passes [of "e\<lparr>config := req\<rparr>" st] by auto
    with Failure show ?thesis by (simp add: api_call_rejects)
  qed
qed

lemma api_call_flagged_401:
  assumes "retry req \<or> shouldSkipRefresh req" "srv n = Failure e" "response_status e = Some 401"
  shows "api_call srv n st req =
     \<lparr>outcome = Rejected (AxiosError (e\<lparr>config := req\<rparr>)), sends = 1, refreshes = 0,
      final_state = st\<rparr>"
proof -
  have "interceptor_onRejected st (e\<lparr>config := req\<rparr>) =
        (Reject (AxiosError (e\<lparr>config := req\<rparr>)), st)"
    using assms onRejected_passes [of "e\<lparr>config := req\<rparr>" st] by auto
  with assms(2) show ?thesis by (simp add: api_call_rejects)
qed

lemma api_call_bounded:
  assumes idle: "\<not> isRefreshing st"
  shows "sends (api_call srv n st req) \<le> 2 \<and> refreshes (api_call srv n st req) \<le> 1 \<and>
         outcome (api_call srv n st req) \<noteq> NeverSettles"
proof (cases "srv n")
  case Success
  then show ?thesis by (simp add: api_call_success)
next
  case (Failure e)
  show ?thesis
  proof (cases "response_status e = Some 401 \<and> \<not> retry req \<and> \<not> shouldSkipRefresh req")
    case False
    then have "retry req \<or> shouldSkipRefresh req \<or> response_status e \<noteq> Some 401" by blast
    then show ?thesis
    proof (elim disjE)
      assume "response_status e \<noteq> Some 401"
      show ?thesis
      proof (cases "response_status e = Some 402")
        case True
        then have "interceptor_onRejected st (e\<lparr>config := req\<rparr>) =
          (Reject (EnterpriseError (or_default (response_detail e) defaultEnterpriseMessage)
             (e\<lparr>config := req\<rparr>)), st)"
          using onRejected_402 [of "e\<lparr>config := req\<rparr>" st] by simp
        with Failure show ?thesis by (simp add: api_call_rejects)
      next
        case no402: False
        with \<open>response_status e \<noteq> Some 401\<close>
        have "interceptor_onRejected st (e\<lparr>config := req\<rparr>) =
          (Reject (AxiosError (e\<lparr>config := req\<rparr>)), st)"
          using onRejected_passes [of "e\<lparr>config := req\<rparr>" st] by simp
        with Failure show ?thesis by (simp add: api_call_rejects)
      qed
    qed (use api_call_single_attempt [of req srv n st] in simp_all)
  next
    case True
    then have step: "interceptor_onRejected st (e\<lparr>config := req\<rparr>) =
        (AwaitRefresh (req\<lparr>retry := True\<rparr>), st\<lparr>isRefreshing := True\<rparr>)"
      using idle onRejected_refreshes [of "e\<lparr>config := req\<rparr>" st] by simp
    show ?thesis
    proof (cases "srv (Suc n)")
      case Success
      have "retry (req\<lparr>retry := True\<rparr>) \<or> shouldSkipRefresh (req\<lparr>retry := True\<rparr>)" by simp
      from api_call_single_attempt [OF this, of srv "Suc (Suc n)"
             "snd (refreshSucceeded (st\<lparr>isRefreshing := True\<rparr>))"]
      show ?thesis
        using api_call_refresh_succeeded [of srv n e st req "req\<lparr>retry := True\<rparr>"
                "st\<lparr>isRefreshing := True\<rparr>"] Failure step Success
        by simp
    next
      case (Failure re)
      show ?thesis
        using api_call_refresh_failed [of srv n e st req "req\<lparr>retry := True\<rparr>"
                "st\<lparr>isRefreshing := True\<rparr>" re] \<open>srv n = Failure e\<close> step Failure
        by simp
    qed
  qed
qed

lemma api_call_failed_refresh:
  assumes "\<not> isRefreshing st" "\<not> retry req" "\<not> shouldSkipRefresh req"
    "srv n = Failure e" "response_status e = Some 401" "srv (Suc n) = Failure re"
  shows "outcome (api_call srv n st req) = Rejected (AxiosError re) \<and>
         sends (api_call srv n st req) = 1 \<and> refreshes (api_call srv n st req) = 1"
proof -
  have step: "interceptor_onRejected st (e\<lparr>config := req\<rparr>) =
        (AwaitRefresh (req\<lparr>retry := True\<rparr>), st\<lparr>isRefreshing := True\<rparr>)"
    using assms onRejected_refreshes [of "e\<lparr>config := req\<rparr>" st] by simp
  show ?thesis
    using api_call_refresh_failed [of srv n e st req "req\<lparr>retry := True\<rparr>"
            "st\<lparr>isRefreshing := True\<rparr>" re] assms(4,6) step
    by simp
qed

text \<open>
  C10 (as amended). A request that fails with 401 while no refresh is in flight is sent at
  most twice and causes at most one refresh, and its promise settles. A request to one of
  the three listed URLs, or one already marked \<open>_retry\<close>, is sent once and causes no
  refresh in any state of the client; when such a request fails with 401 the error is
  rejected to the caller as it is. When the refresh started for a request fails, the
  refresh error is rejected to the caller and the request is not sent again.
\<close>

theorem refresh_and_retry_bounds:
  "(\<not> isRefreshing st \<longrightarrow>
      sends (api_call srv n st req) \<le> 2 \<and> refreshes (api_call srv n st req) \<le> 1 \<and>
      outcome (api_call srv n st req) \<noteq> NeverSettles) \<and>
   (url req = Some u \<and> u \<in> set skipRefreshUrls \<longrightarrow> shouldSkipRefresh req) \<and>
   (retry req \<or> shouldSkipRefresh req \<longrightarrow>
      sends (api_call srv n st req) = 1 \<and> refreshes (api_call srv n st req) = 0 \<and>
      outcome (api_call srv n st req) \<noteq> NeverSettles) \<and>
   ((retry req \<or> shouldSkipRefresh req) \<and> srv n = Failure e \<and> response_status e = Some 401 \<longrightarrow>
      api_call srv n st req =
        \<lparr>outcome = Rejected (AxiosError (e\<lparr>config := req\<rparr>)), sends = 1, refreshes = 0,
         final_state = st\<rparr>) \<and>
   (\<not> isRefreshing st \<and> \<not> retry req \<and> \<not> shouldSkipRefresh req \<and> srv n = Failure e \<and>
    response_status e = Some 401 \<and> srv (Suc n) = Failure re \<longrightarrow>
      outcome (api_call srv n st req) = Rejected (AxiosError re) \<and>
      sends (api_call srv n st req) = 1 \<and> refreshes (api_call srv n st req) = 1)"
proof (intro conjI impI)
  assume "\<not> isRefreshing st"
  from api_call_bounded [OF this, of srv n req]
  show "sends (api_call srv n st req) \<le> 2" "refreshes (api_call srv n st req) \<le> 1"
    "outcome (api_call srv n st req) \<noteq> NeverSettles"
    by simp_all
next
  assume "url req = Some u \<and> u \<in> set skipRefreshUrls"
  then show "shouldSkipRefresh req" by (simp add: listed_url_skipped)
next
  assume "retry req \<or> shouldSkipRefresh req"
  from api_call_single_attempt [OF this, of srv n st]
  show "sends (api_call srv n st req) = 1" "refreshes (api_call srv n st req) = 0"
    "outcome (api_call srv n st req) \<noteq> NeverSettles"
    by simp_all
next
  assume "(retry req \<or> shouldSkipRefresh req) \<and> srv n = Failure e \<and> response_status e = Some 401"
  then show "api_call srv n st req =
        \<lparr>outcome = Rejected (AxiosError (e\<lparr>config := req\<rparr>)), sends = 1, refreshes = 0,
         final_state = st\<rparr>"
    by (simp add: api_call_flagged_401)
next
  assume a: "\<not> isRefreshing st \<and> \<not> retry req \<and> \<not> shouldSkipRefresh req \<and> srv n = Failure e \<and>
    response_status e = Some 401 \<and> srv (Suc n) = Failure re"
  then have "outcome (api_call srv n st req) = Rejected (AxiosError re) \<and>
         sends (api_call srv n st req) = 1 \<and> refreshes (api_call srv n st req) = 1"
    using api_call_failed_refresh [where st = st and req = req and srv = srv and n = n
            and e = e and re = re]
    by simp
  then show "outcome (api_call srv n st req) = Rejected (AxiosError re)"
    "sends (api_call srv n st req) = 1" "refreshes (api_call srv n st req) = 1"
    by simp_all
qed

lemma servers_request_not_skipped: "\<not> shouldSkipRefresh servers_request"
  by (simp add: shouldSkipRefresh_def servers_request_def skipRefreshUrls_def)

lemma unauthorized_status: "response_status unauthorized = Some 401"
  by (simp add: response_status_def unauthorized_def)

lemma payment_required_status: "response_status payment_required = Some 402"
  by (simp add: response_status_def payment_required_def)

lemma refresh_then_retry_rejected:
  assumes "\<not> isRefreshing st" "\<not> retry req" "\<not> shouldSkipRefresh req"
    "srv n = Failure e" "response_status e = Some 401" "srv (Suc n) = Success"
    "srv (Suc (Suc n)) = Failure e'" "response_status e' = Some 401"
  shows "sends (api_call srv n st req) = 2 \<and> refreshes (api_call srv n st req) = 1 \<and>
         outcome (api_call srv n st req) =
           Rejected (AxiosError (e'\<lparr>config := req\<lparr>retry := True\<rparr>\<rparr>))"
proof -
  have step: "interceptor_onRejected st (e\<lparr>config := req\<rparr>) =
        (AwaitRefresh (req\<lparr>retry := True\<rparr>), st\<lparr>isRefreshing := True\<rparr>)"
    using assms onRejected_refreshes [of "e\<lparr>config := req\<rparr>" st] by simp
  have inner: "api_call srv (Suc (Suc n)) (snd (refreshSucceeded (st\<lparr>isRefreshing := True\<rparr>)))
                 (req\<lparr>retry := True\<rparr>) =
     \<lparr>outcome = Rejected (AxiosError (e'\<lparr>config := req\<lparr>retry := True\<rparr>\<rparr>)), sends = 1,
      refreshes = 0, final_state = snd (refreshSucceeded (st\<lparr>isRefreshing := True\<rparr>))\<rparr>"
    using assms(7,8) by (intro api_call_flagged_401 [where e = e']) simp_all
  show ?thesis
    using api_call_refresh_succeeded [of srv n e st req "req\<lparr>retry := True\<rparr>"
            "st\<lparr>isRefreshing := True\<rparr>"] assms(4,6) step inner
    by simp
qed

lemma queued_then_resent:
  assumes "isRefreshing st" "\<not> retry req" "\<not> shouldSkipRefresh req"
    "srv n = Failure e" "response_status e = Some 401" "srv (Suc n) = Success"
  shows "api_call srv n st req =
     resent (api_call srv (Suc (Suc n)) (st\<lparr>isRefreshing := False, refreshSubscribers := []\<rparr>) req)"
proof -
  have step: "interceptor_onRejected st (e\<lparr>config := req\<rparr>) =
        (Enqueue, st\<lparr>refreshSubscribers := refreshSubscribers st @ [req]\<rparr>)"
    using assms onRejected_queues [of "e\<lparr>config := req\<rparr>" st] by simp
  have "snd (refreshSucceeded (st\<lparr>refreshSubscribers := refreshSubscribers st @ [req]\<rparr>)) =
          st\<lparr>isRefreshing := False, refreshSubscribers := []\<rparr>"
    by (simp add: refreshSucceeded_def onRefreshed_def)
  with api_call_queued_resumed [of srv n e st req] assms(4,6) step
  show ?thesis by simp
qed

lemma servers_request_plain: "\<not> retry servers_request"
  by (simp add: servers_request_def)

lemma expired_session_replies:
  "expired_session 0 = Failure unauthorized" "expired_session (Suc 0) = Success"
  "expired_session (Suc (Suc 0)) = Failure unauthorized"
  "expired_session (Suc (Suc (Suc 0))) = Success"
  "expired_session (Suc (Suc (Suc (Suc 0)))) = Failure unauthorized"
  by (simp_all add: expired_session_def)

lemma idle_run:
  "sends (api_call expired_session 0 idle servers_request) = 2 \<and>
   refreshes (api_call expired_session 0 idle servers_request) = 1 \<and>
   outcome (api_call expired_session 0 idle servers_request) =
     Rejected (AxiosError (unauthorized\<lparr>config := servers_request\<lparr>retry := True\<rparr>\<rparr>))"
  by (rule refresh_then_retry_rejected [where e = unauthorized and e' = unauthorized])
     (simp_all add: idle_def servers_request_plain servers_request_not_skipped
        expired_session_replies unauthorized_status)

lemma queued_run:
  "sends (api_call expired_session 0 refresh_in_flight servers_request) = 3 \<and>
   refreshes (api_call expired_session 0 refresh_in_flight servers_request) = 1 \<and>
   outcome (api_call expired_session 0 refresh_in_flight servers_request) =
     Rejected (AxiosError (unauthorized\<lparr>config := servers_request\<lparr>retry := True\<rparr>\<rparr>))"
proof -
  have first: "api_call expired_session 0 refresh_in_flight servers_request =
      resent (api_call expired_session (Suc (Suc 0))
        (refresh_in_flight\<lparr>isRefreshing := False, refreshSubscribers := []\<rparr>) servers_request)"
    by (rule queued_then_resent [where e = unauthorized])
       (simp_all add: refresh_in_flight_def servers_request_plain servers_request_not_skipped
          expired_session_replies unauthorized_status)
  have second:
    "sends (api_call expired_session (Suc (Suc 0))
        (refresh_in_flight\<lparr>isRefreshing := False, refreshSubscribers := []\<rparr>) servers_request) = 2 \<and>
     refreshes (api_call expired_session (Suc (Suc 0))
        (refresh_in_flight\<lparr>isRefreshing := False, refreshSubscribers := []\<rparr>) servers_request) = 1 \<and>
     outcome (api_call expired_session (Suc (Suc 0))
        (refresh_in_flight\<lparr>isRefreshing := False, refreshSubscribers := []\<rparr>) servers_request) =
       Rejected (AxiosError (unauthorized\<lparr>config := servers_request\<lparr>retry := True\<rparr>\<rparr>))"
    by (rule refresh_then_retry_rejected [where e = unauthorized and e' = unauthorized])
       (simp_all add: servers_request_plain servers_request_not_skipped
          expired_session_replies unauthorized_status)
  from first second show ?thesis by simp
qed

text \<open>
  C10 as it was stated fails for a request whose 401 arrives while a refresh is in flight:
  the request is queued without the \<open>_retry\<close> mark, sent again when that refresh
  succeeds, and on a second 401 starts a refresh of its own and is sent a third time.
\<close>

theorem retry_bound_counterexample:
  "isRefreshing refresh_in_flight \<and>
   expired_session 0 = Failure unauthorized \<and>
   response_status unauthorized = Some 401 \<and>
   sends (api_call expired_session 0 refresh_in_flight servers_request) = 3 \<and>
   \<not> sends (api_call expired_session 0 refresh_in_flight servers_request) \<le> 2"
  using queued_run by (simp add: refresh_in_flight_def expired_session_replies unauthorized_status)

lemma logout_request_listed:
  "url logout_request = Some ''/api/auth/logout''" "''/api/auth/logout'' \<in> set skipRefreshUrls"
  by (simp_all add: logout_request_def skipRefreshUrls_def)

theorem refresh_and_retry_bounds_witness:
  "\<not> isRefreshing idle \<and>
   sends (api_call expired_session 0 idle servers_request) = 2 \<and>
   refreshes (api_call expired_session 0 idle servers_request) = 1 \<and>
   url logout_request = Some ''/api/auth/logout'' \<and>
   ''/api/auth/logout'' \<in> set skipRefreshUrls \<and>
   shouldSkipRefresh logout_request \<and>
   api_call dead_session 0 idle logout_request =
     \<lparr>outcome = Rejected (AxiosError (unauthorized\<lparr>config := logout_request\<rparr>)),
      sends = 1, refreshes = 0, final_state = idle\<rparr> \<and>
   \<not> retry servers_request \<and> \<not> shouldSkipRefresh servers_request \<and>
   dead_session 0 = Failure unauthorized \<and> dead_session (Suc 0) = Failure unauthorized \<and>
   response_status unauthorized = Some 401 \<and>
   outcome (api_call dead_session 0 idle servers_request) = Rejected (AxiosError unauthorized) \<and>
   sends (api_call dead_session 0 idle servers_request) = 1 \<and>
   refreshes (api_call dead_session 0 idle servers_request) = 1"
proof -
  have facts:
    "\<not> isRefreshing idle" "\<not> retry servers_request" "\<not> shouldSkipRefresh servers_request"
    "dead_session 0 = Failure unauthorized" "dead_session (Suc 0) = Failure unauthorized"
    "response_status unauthorized = Some 401"
    "url logout_request = Some ''/api/auth/logout''"
    "''/api/auth/logout'' \<in> set skipRefreshUrls"
    by (simp_all add: idle_def servers_request_plain servers_request_not_skipped
          dead_session_def unauthorized_status logout_request_listed)
  from facts idle_run
    refresh_and_retry_bounds [of idle dead_session 0 logout_request "''/api/auth/logout''"
      unauthorized unauthorized]
    refresh_and_retry_bounds [of idle dead_session 0 servers_request "''/api/auth/logout''"
      unauthorized unauthorized]
  show ?thesis by simp
qed

lemma enterprise_message_nonempty: "or_default d defaultEnterpriseMessage \<noteq> []"
  by (cases d) (simp_all add: or_default_def defaultEnterpriseMessage_def)

lemma api_call_402:
  assumes "srv n = Failure e" "response_status e = Some 402"
  shows "api_call srv n st req =
     \<lparr>outcome = Rejected (EnterpriseError
         (or_default (response_detail e) defaultEnterpriseMessage) (e\<lparr>config := req\<rparr>)),
      sends = 1, refreshes = 0, final_state = st\<rparr>"
proof -
  have "interceptor_onRejected st (e\<lparr>config := req\<rparr>) =
        (Reject (EnterpriseError (or_default (response_detail e) defaultEnterpriseMessage)
           (e\<lparr>config := req\<rparr>)), st)"
    using assms(2) onRejected_402 [of "e\<lparr>config := req\<rparr>" st] by simp
  with assms(1) show ?thesis by (simp add: api_call_rejects)
qed

lemma onRejected_flag_fst:
  "fst (interceptor_onRejected st err) = Reject r \<Longrightarrow>
   isEnterpriseFeature r \<longleftrightarrow> response_status err = Some 402"
  using onRejected_flag [of st err r "snd (interceptor_onRejected st err)"]
  by (cases "interceptor_onRejected st err") simp

lemma flagged_toast:
  "isEnterpriseFeature r \<Longrightarrow>
   rejection_status r = Some 402 \<and>
   enterprise_or_error r fallback failure =
     ToastInfo (or_default (Some (rejection_message r)) fallback)"
  by (cases r) (simp_all add: enterprise_or_error_def)

lemma generic_toast:
  "\<not> isEnterpriseFeature r \<Longrightarrow> rejection_status r \<noteq> Some 402 \<Longrightarrow>
   enterprise_or_error r fallback failure = ToastError failure"
  by (simp add: enterprise_or_error_def)

text \<open>
  C9. A 402 response is turned into the enterprise error (flagged \<open>isEnterpriseFeature\<close>,
  status 402, carrying the response's detail or the default message, never an empty one)
  without touching the refresh state: the request is sent once and no refresh is started.
  A rejection of the interceptor carries the flag exactly when the response had status
  402, and when no reply of the server has status 402 no rejection of a request carries
  it. \<open>fetchUserTools\<close> shows a flagged rejection as information and an unflagged one
  without status 402 as a failure.
\<close>

theorem enterprise_signal_recognized:
  "(response_status err = Some 402 \<longrightarrow>
      interceptor_onRejected st err =
        (Reject (EnterpriseError (or_default (response_detail err) defaultEnterpriseMessage) err),
         st)) \<and>
   or_default (response_detail err) defaultEnterpriseMessage \<noteq> [] \<and>
   (fst (interceptor_onRejected st err) = Reject r \<longrightarrow>
      (isEnterpriseFeature r \<longleftrightarrow> response_status err = Some 402)) \<and>
   (srv n = Failure e \<and> response_status e = Some 402 \<longrightarrow>
      api_call srv n st req =
        \<lparr>outcome = Rejected (EnterpriseError
            (or_default (response_detail e) defaultEnterpriseMessage) (e\<lparr>config := req\<rparr>)),
         sends = 1, refreshes = 0, final_state = st\<rparr>) \<and>
   ((\<forall>k e. srv k = Failure e \<longrightarrow> response_status e \<noteq> Some 402) \<and>
    outcome (api_call srv n st req) = Rejected r' \<longrightarrow> \<not> isEnterpriseFeature r') \<and>
   (isEnterpriseFeature r'' \<longrightarrow>
      rejection_status r'' = Some 402 \<and>
      toasts (fetchUserTools_catch r'' page) =
        toasts page @ [ToastInfo (or_default (Some (rejection_message r'')) enterpriseOnlyMessage)]) \<and>
   (\<not> isEnterpriseFeature r'' \<and> rejection_status r'' \<noteq> Some 402 \<longrightarrow>
      toasts (fetchUserTools_catch r'' page) =
        toasts page @ [ToastError ''Failed to load user tool permissions''])"
proof (intro conjI impI)
  assume "response_status err = Some 402"
  then show "interceptor_onRejected st err =
        (Reject (EnterpriseError (or_default (response_detail err) defaultEnterpriseMessage) err),
         st)"
    by (rule onRejected_402)
next
  show "or_default (response_detail err) defaultEnterpriseMessage \<noteq> []"
    by (rule enterprise_message_nonempty)
next
  assume "fst (interceptor_onRejected st err) = Reject r"
  then show "isEnterpriseFeature r \<longleftrightarrow> response_status err = Some 402"
    by (rule onRejected_flag_fst)
next
  assume "srv n = Failure e \<and> response_status e = Some 402"
  then show "api_call srv n st req =
        \<lparr>outcome = Rejected (EnterpriseError
            (or_default (response_detail e) defaultEnterpriseMessage) (e\<lparr>config := req\<rparr>)),
         sends = 1, refreshes = 0, final_state = st\<rparr>"
    by (simp add: api_call_402)
next
  assume a: "(\<forall>k e. srv k = Failure e \<longrightarrow> response_status e \<noteq> Some 402) \<and>
    outcome (api_call srv n st req) = Rejected r'"
  show "\<not> isEnterpriseFeature r'"
    using a no_402_no_flag [of srv n st req r'] by blast
next
  assume f: "isEnterpriseFeature r''"
  from flagged_toast [OF f, of enterpriseOnlyMessage "''Failed to load user tool permissions''"]
  show "rejection_status r'' = Some 402"
    "toasts (fetchUserTools_catch r'' page) =
        toasts page @ [ToastInfo (or_default (Some (rejection_message r'')) enterpriseOnlyMessage)]"
    by (simp_all add: fetchUserTools_catch_def)
next
  assume "\<not> isEnterpriseFeature r'' \<and> rejection_status r'' \<noteq> Some 402"
  then show "toasts (fetchUserTools_catch r'' page) =
        toasts page @ [ToastError ''Failed to load user tool permissions'']"
    by (simp add: generic_toast fetchUserTools_catch_def)
qed

lemma payment_required_detail:
  "or_default (response_detail payment_required) defaultEnterpriseMessage =
     ''Teams require Enterprise Edition''"
  by (simp add: response_detail_def payment_required_def or_default_def)

lemma dead_session_no_402:
  "\<forall>k e. dead_session k = Failure e \<longrightarrow> response_status e \<noteq> Some 402"
  by (simp add: dead_session_def unauthorized_status)

lemma dead_logout:
  "outcome (api_call dead_session 0 idle logout_request) =
     Rejected (AxiosError (unauthorized\<lparr>config := logout_request\<rparr>))"
  using api_call_flagged_401 [of logout_request dead_session 0 unauthorized idle]
    listed_url_skipped [OF logout_request_listed]
  by (simp add: dead_session_def unauthorized_status)

lemma sample_info_toast:
  "or_default (Some (rejection_message
      (EnterpriseError ''Teams require Enterprise Edition'' payment_required)))
      enterpriseOnlyMessage = ''Teams require Enterprise Edition''"
  by (simp add: or_default_def)

theorem enterprise_signal_recognized_witness:
  "response_status payment_required = Some 402 \<and>
   interceptor_onRejected refresh_in_flight payment_required =
     (Reject (EnterpriseError ''Teams require Enterprise Edition'' payment_required),
      refresh_in_flight) \<and>
   isEnterpriseFeature (EnterpriseError ''Teams require Enterprise Edition'' payment_required) \<and>
   gated_endpoint 0 = Failure payment_required \<and>
   api_call gated_endpoint 0 refresh_in_flight servers_request =
     \<lparr>outcome = Rejected (EnterpriseError ''Teams require Enterprise Edition''
                   (payment_required\<lparr>config := servers_request\<rparr>)),
      sends = 1, refreshes = 0, final_state = refresh_in_flight\<rparr> \<and>
   outcome (api_call dead_session 0 idle logout_request) =
     Rejected (AxiosError (unauthorized\<lparr>config := logout_request\<rparr>)) \<and>
   \<not> isEnterpriseFeature (AxiosError (unauthorized\<lparr>config := logout_request\<rparr>)) \<and>
   toasts (fetchUserTools_catch
             (EnterpriseError ''Teams require Enterprise Edition'' payment_required) sample_admin) =
     toasts sample_admin @ [ToastInfo ''Teams require Enterprise Edition''] \<and>
   toasts (fetchUserTools_catch (AxiosError unauthorized) sample_admin) =
     toasts sample_admin @ [ToastError ''Failed to load user tool permissions'']"
proof -
  have facts:
    "response_status payment_required = Some 402"
    "gated_endpoint 0 = Failure payment_required"
    "\<not> isEnterpriseFeature (AxiosError unauthorized)"
    "rejection_status (AxiosError unauthorized) \<noteq> Some 402"
    "isEnterpriseFeature (EnterpriseError ''Teams require Enterprise Edition'' payment_required)"
    by (simp_all add: payment_required_status gated_endpoint_def unauthorized_def)
  from facts payment_required_detail dead_session_no_402 dead_logout sample_info_toast
    enterprise_signal_recognized [where err = payment_required and st = refresh_in_flight
      and srv = gated_endpoint and n = 0 and e = payment_required and req = servers_request
      and r'' = "EnterpriseError ''Teams require Enterprise Edition'' payment_required"
      and r' = "AxiosError unauthorized"
      and r = "EnterpriseError ''Teams require Enterprise Edition'' payment_required"
      and page = sample_admin]
    enterprise_signal_recognized [where err = payment_required and st = idle
      and srv = dead_session and n = 0 and e = payment_required and req = logout_request
      and r'' = "AxiosError unauthorized"
      and r' = "AxiosError (unauthorized\<lparr>config := logout_request\<rparr>)"
      and r = "EnterpriseError ''Teams require Enterprise Edition'' payment_required"
      and page = sample_admin]
  show ?thesis by simp
qed

section \<open>The Access Token Manager\<close>

lemma revoke_prior_no_active:
  "filter (\<lambda>r. user_id r = u \<and> revoked_at r = None) (revoke_prior now u rows) = []"
  by (induction rows) (simp_all add: revoke_prior_def)

lemma revoke_prior_active_users:
  "map user_id (filter (\<lambda>r. revoked_at r = None) (revoke_prior now u rows)) =
     filter (\<lambda>v. v \<noteq> u) (map user_id (filter (\<lambda>r. revoked_at r = None) rows))"
  by (induction rows) (simp_all add: revoke_prior_def)

lemma revoke_prior_hashes:
  "token_hash ` set (revoke_prior now u rows) = token_hash ` set rows"
  by (induction rows) (simp_all add: revoke_prior_def)

lemma revoke_prior_revokes:
  "r \<in> set (revoke_prior now u rows) \<Longrightarrow> user_id r = u \<Longrightarrow> revoked_at r \<noteq> None"
proof (induction rows)
  case Nil
  then show ?case by (simp add: revoke_prior_def)
next
  case (Cons a rows)
  from Cons.prems(1)
  have "r = (if user_id a = u \<and> revoked_at a = None then a\<lparr>revoked_at := Some now\<rparr> else a)
        \<or> r \<in> set (revoke_prior now u rows)"
    by (simp add: revoke_prior_def)
  then show ?case
  proof
    assume r: "r = (if user_id a = u \<and> revoked_at a = None then a\<lparr>revoked_at := Some now\<rparr> else a)"
    show ?thesis
    proof (cases "user_id a = u \<and> revoked_at a = None")
      case True
      with r show ?thesis by simp
    next
      case False
      with r Cons.prems(2) show ?thesis by simp
    qed
  next
    assume "r \<in> set (revoke_prior now u rows)"
    with Cons.IH Cons.prems(2) show ?thesis by blast
  qed
qed

lemma issue_rows:
  "snd (issue H now random u label rows) =
     revoke_prior now u rows @
       [\<lparr>token_id = length rows, user_id = u, token_hash = H random,
         token_name = label, created_at = now, revoked_at = None\<rparr>]"
  by (simp add: issue_def)

lemma active_after_issue:
  "active_tokens u (snd (issue H now random u label rows)) =
     [\<lparr>token_id = length rows, user_id = u, token_hash = H random,
       token_name = label, created_at = now, revoked_at = None\<rparr>]"
  by (simp add: issue_rows active_tokens_def revoke_prior_no_active)

lemma issue_keeps_invariant:
  assumes "one_active_per_user rows"
  shows "one_active_per_user (snd (issue H now random u label rows))"
proof -
  have "distinct (filter (\<lambda>v. v \<noteq> u) (map user_id (filter (\<lambda>r. revoked_at r = None) rows)))"
    using assms by (simp add: one_active_per_user_def)
  then show ?thesis
    by (simp add: one_active_per_user_def issue_rows revoke_prior_active_users)
qed

lemma revoke_active_users:
  "map user_id (filter (\<lambda>r. revoked_at r = None) (revoke now tid rows)) =
     map user_id (filter (\<lambda>r. token_id r \<noteq> tid) (filter (\<lambda>r. revoked_at r = None) rows))"
  by (induction rows) (simp_all add: revoke_def)

lemma revoke_keeps_invariant:
  assumes "one_active_per_user rows"
  shows "one_active_per_user (revoke now tid rows)"
  using assms distinct_map_filter [of user_id "filter (\<lambda>r. revoked_at r = None) rows"
          "\<lambda>r. token_id r \<noteq> tid"]
  by (simp add: one_active_per_user_def revoke_active_users)

lemma revoke_idempotent: "revoke now' tid (revoke now tid rows) = revoke now tid rows"
  by (induction rows) (simp_all add: revoke_def)

lemma step_keeps_invariant:
  "one_active_per_user rows \<Longrightarrow> one_active_per_user (apply_token_op H rows op)"
  by (cases op) (simp_all add: issue_keeps_invariant revoke_keeps_invariant)

lemma foldl_keeps_invariant:
  "one_active_per_user rows \<Longrightarrow> one_active_per_user (foldl (apply_token_op H) rows ops)"
  by (induction ops arbitrary: rows) (simp_all add: step_keeps_invariant)

lemma history_invariant: "one_active_per_user (token_history H ops)"
  unfolding token_history_def
  by (rule foldl_keeps_invariant) (simp add: one_active_per_user_def)

lemma find_absent:
  "(\<And>r. r \<in> set rows \<Longrightarrow> \<not> P r) \<Longrightarrow> find P rows = None"
  by (induction rows) simp_all

lemma find_last:
  "(\<And>r. r \<in> set rows \<Longrightarrow> \<not> P r) \<Longrightarrow> P x \<Longrightarrow> find P (rows @ [x]) = Some x"
  by (induction rows) simp_all

lemma prior_hash:
  "r \<in> set (revoke_prior now u rows) \<Longrightarrow> token_hash r \<in> token_hash ` set rows"
  using revoke_prior_hashes [of now u rows] by (metis imageI)

lemma prior_unrevoked_other:
  "r \<in> set (revoke_prior now u rows) \<Longrightarrow> user_id r \<noteq> u \<Longrightarrow> r \<in> set rows"
proof (induction rows)
  case Nil
  then show ?case by (simp add: revoke_prior_def)
next
  case (Cons a rows)
  from Cons.prems(1)
  have "r = (if user_id a = u \<and> revoked_at a = None then a\<lparr>revoked_at := Some now\<rparr> else a)
        \<or> r \<in> set (revoke_prior now u rows)"
    by (simp add: revoke_prior_def)
  then show ?case
  proof
    assume r: "r = (if user_id a = u \<and> revoked_at a = None then a\<lparr>revoked_at := Some now\<rparr> else a)"
    show ?thesis
    proof (cases "user_id a = u \<and> revoked_at a = None")
      case True
      with r Cons.prems(2) show ?thesis by simp
    next
      case False
      with r show ?thesis by simp
    qed
  next
    assume "r \<in> set (revoke_prior now u rows)"
    with Cons.IH Cons.prems(2) show ?thesis by simp
  qed
qed

lemma first_token_valid:
  assumes fresh: "H t1 \<notin> token_hash ` set rows"
  shows "validate H (snd (issue H n1 t1 u l1 rows)) t1 = Inr u"
proof -
  let ?new = "\<lparr>token_id = length rows, user_id = u, token_hash = H t1,
         token_name = l1, created_at = n1, revoked_at = None\<rparr>"
  have "\<not> (token_hash r = H t1 \<and> revoked_at r = None)"
    if "r \<in> set (revoke_prior n1 u rows)" for r
    using prior_hash [OF that] fresh by metis
  then have "find (\<lambda>r. token_hash r = H t1 \<and> revoked_at r = None)
               (revoke_prior n1 u rows @ [?new]) = Some ?new"
    by (intro find_last) simp_all
  then show ?thesis by (simp add: validate_def issue_rows)
qed

lemma first_token_invalid_after_second:
  assumes fresh: "H t1 \<notin> token_hash ` set rows" and other: "H t2 \<noteq> H t1"
  shows "validate H (snd (issue H n2 t2 u l2 (snd (issue H n1 t1 u l1 rows)))) t1 = Inl InvalidToken"
proof -
  let ?new1 = "\<lparr>token_id = length rows, user_id = u, token_hash = H t1,
         token_name = l1, created_at = n1, revoked_at = None\<rparr>"
  let ?s1 = "revoke_prior n1 u rows @ [?new1]"
  let ?new2 = "\<lparr>token_id = length ?s1, user_id = u, token_hash = H t2,
         token_name = l2, created_at = n2, revoked_at = None\<rparr>"
  have s1: "snd (issue H n1 t1 u l1 rows) = ?s1" by (rule issue_rows)
  have none: "\<not> (token_hash r = H t1 \<and> revoked_at r = None)"
    if r: "r \<in> set (revoke_prior n2 u ?s1)" for r
  proof (cases "user_id r = u")
    case True
    with r revoke_prior_revokes [of r n2 u ?s1] show ?thesis by blast
  next
    case False
    with r have "r \<in> set ?s1" by (rule prior_unrevoked_other)
    with False have "r \<in> set (revoke_prior n1 u rows)" by auto
    then have "token_hash r \<in> token_hash ` set rows" by (rule prior_hash)
    with fresh show ?thesis by metis
  qed
  have "find (\<lambda>r. token_hash r = H t1 \<and> revoked_at r = None)
          (revoke_prior n2 u ?s1 @ [?new2]) = None"
  proof (rule find_absent)
    fix r assume "r \<in> set (revoke_prior n2 u ?s1 @ [?new2])"
    then have "r \<in> set (revoke_prior n2 u ?s1) \<or> r = ?new2" by auto
    then show "\<not> (token_hash r = H t1 \<and> revoked_at r = None)"
    proof
      assume "r \<in> set (revoke_prior n2 u ?s1)"
      then show ?thesis by (rule none)
    next
      assume "r = ?new2"
      with other show ?thesis by simp
    qed
  qed
  then show ?thesis
    by (simp only: validate_def s1 issue_rows [of H n2 t2 u l2 ?s1]) simp
qed

text \<open>
  C2. In every history of issues and revocations no user owns two non-revoked tokens.
  After \<open>issue\<close> for a user, that user's only non-revoked token is the new row: every earlier
  one has been revoked. \<open>issue\<close> and \<open>revoke\<close> preserve the invariant from any table. A
  first token whose hash is new to the table validates as its user, and after a second
  \<open>issue\<close> for the same user (with a different hash) it fails with \<open>InvalidToken\<close>.
\<close>

theorem one_active_token_per_user:
  "one_active_per_user (token_history H ops) \<and>
   active_tokens u (snd (issue H now random u label rows)) =
     [\<lparr>token_id = length rows, user_id = u, token_hash = H random,
       token_name = label, created_at = now, revoked_at = None\<rparr>] \<and>
   (one_active_per_user rows \<longrightarrow>
      one_active_per_user (snd (issue H now random u label rows)) \<and>
      one_active_per_user (revoke now tid rows)) \<and>
   (H t1 \<notin> token_hash ` set rows \<and> H t2 \<noteq> H t1 \<longrightarrow>
      validate H (snd (issue H n1 t1 u l1 rows)) t1 = Inr u \<and>
      validate H (snd (issue H n2 t2 u l2 (snd (issue H n1 t1 u l1 rows)))) t1 = Inl InvalidToken)"
proof (intro conjI impI)
  show "one_active_per_user (token_history H ops)" by (rule history_invariant)
  show "active_tokens u (snd (issue H now random u label rows)) =
     [\<lparr>token_id = length rows, user_id = u, token_hash = H random,
       token_name = label, created_at = now, revoked_at = None\<rparr>]"
    by (rule active_after_issue)
next
  assume "one_active_per_user rows"
  then show "one_active_per_user (snd (issue H now random u label rows))"
    "one_active_per_user (revoke now tid rows)"
    by (rule issue_keeps_invariant, rule revoke_keeps_invariant)
next
  assume a: "H t1 \<notin> token_hash ` set rows \<and> H t2 \<noteq> H t1"
  then show "validate H (snd (issue H n1 t1 u l1 rows)) t1 = Inr u"
    by (simp add: first_token_valid)
  from a show "validate H (snd (issue H n2 t2 u l2 (snd (issue H n1 t1 u l1 rows)))) t1
                 = Inl InvalidToken"
    by (simp add: first_token_invalid_after_second)
qed

theorem one_active_token_per_user_witness:
  "one_active_per_user no_tokens \<and>
   id ''mcp_tok_1'' \<notin> token_hash ` set no_tokens \<and>
   id ''mcp_tok_2'' \<noteq> id ''mcp_tok_1'' \<and>
   one_active_per_user (snd (issue id 10 ''mcp_tok_1'' ''a@b.com'' ''cursor'' no_tokens)) \<and>
   validate id (snd (issue id 10 ''mcp_tok_1'' ''a@b.com'' ''cursor'' no_tokens)) ''mcp_tok_1''
     = Inr ''a@b.com'' \<and>
   validate id (snd (issue id 20 ''mcp_tok_2'' ''a@b.com'' ''vscode''
                  (snd (issue id 10 ''mcp_tok_1'' ''a@b.com'' ''cursor'' no_tokens)))) ''mcp_tok_1''
     = Inl InvalidToken"
proof -
  have facts: "one_active_per_user no_tokens"
    "id ''mcp_tok_1'' \<notin> token_hash ` set no_tokens"
    "id ''mcp_tok_2'' \<noteq> id ''mcp_tok_1''"
    by (simp_all add: no_tokens_def one_active_per_user_def)
  from facts
    one_active_token_per_user [where H = id and rows = no_tokens and u = "''a@b.com''"
      and now = 10 and random = "''mcp_tok_1''" and label = "''cursor''"
      and ?t1.0 = "''mcp_tok_1''" and ?t2.0 = "''mcp_tok_2''" and ?n1.0 = 10 and ?n2.0 = 20
      and ?l1.0 = "''cursor''" and ?l2.0 = "''vscode''"]
  show ?thesis by simp
qed

section \<open>The OAuth client secret\<close>

lemma upsert_without_secret:
  assumes "b_client_secret body = None" "db sid = Some old"
    "upsert encrypt hint now sid body db = Inr db'"
  shows "map_option client_secret (db' sid) = Some (client_secret old) \<and>
         map_option client_secret_hint (db' sid) = Some (client_secret_hint old) \<and>
         map_option client_secret_updated_at (db' sid) = Some (client_secret_updated_at old)"
proof -
  have "db' = db(sid \<mapsto> old\<lparr>provider_name := b_provider_name body,
                                client_id := b_client_id body,
                                redirect_uri := b_redirect_uri body,
                                auth_url := b_auth_url body,
                                token_url := b_token_url body,
                                scopes := b_scopes body,
                                additional_config := b_additional_config body\<rparr>)"
    using assms by (simp add: upsert_def Let_def split: if_splits)
  then show ?thesis by simp
qed

lemma view_ignores_ciphertext:
  "provider_view_of (c\<lparr>client_secret := x\<rparr>) = provider_view_of c"
  by (simp add: provider_view_of_def)

lemma read_after_upsert:
  assumes "upsert encrypt hint now sid (body\<lparr>b_client_secret := Some s1\<rparr>) db = Inr db1"
    "upsert encrypt hint now sid (body\<lparr>b_client_secret := Some s2\<rparr>) db = Inr db2"
    "hint s1 = hint s2"
  shows "read_provider db1 sid' = read_provider db2 sid'"
proof (cases "db sid")
  case None
  with assms show ?thesis
    by (auto simp: upsert_def read_provider_def provider_view_of_def split: if_splits)
next
  case (Some old)
  with assms show ?thesis
    by (auto simp: upsert_def Let_def read_provider_def provider_view_of_def split: if_splits)
qed

lemma update_body_blank_secret:
  "handleUpdateOAuthProvider JSON_parse oauthForm = Some body \<Longrightarrow>
   f_client_secret oauthForm = [] \<Longrightarrow>
   b_client_secret body = None"
  by (auto simp: handleUpdateOAuthProvider_def split: option.splits)

lemma payload_without_secret:
  "\<not> secretEditMode st \<or> trim (newSecret st) = [] \<Longrightarrow>
   p_client_secret (handleSave_payload st) = None"
  by (auto simp: handleSave_payload_def)

lemma upsert_update_without_secret:
  assumes "b_client_secret body = None" "db sid = Some old"
    "b_client_id body \<noteq> []" "b_auth_url body \<noteq> []" "b_token_url body \<noteq> []"
    "b_redirect_uri body \<noteq> []"
  shows "upsert encrypt hint now sid body db =
           Inr (db(sid \<mapsto> old\<lparr>provider_name := b_provider_name body,
                                client_id := b_client_id body,
                                redirect_uri := b_redirect_uri body,
                                auth_url := b_auth_url body,
                                token_url := b_token_url body,
                                scopes := b_scopes body,
                                additional_config := b_additional_config body\<rparr>))"
  using assms by (simp add: upsert_def Let_def)

text \<open>
  C4. An update whose body omits \<open>client_secret\<close> succeeds on a stored configuration and
  leaves the stored ciphertext, its hint and its timestamp unchanged. What a read returns
  does not depend on the stored ciphertext, and two secrets with the same hint give the
  same read: a read shows the hint and the timestamp, nothing else of the secret. The
  Admin page omits \<open>client_secret\<close> from the update body when the field is empty, and the
  settings modal omits it unless the secret is being edited and the input is not blank.
\<close>

theorem client_secret_write_only:
  "(b_client_secret body = None \<and> db sid = Some old \<and>
    b_client_id body \<noteq> [] \<and> b_auth_url body \<noteq> [] \<and> b_token_url body \<noteq> [] \<and>
    b_redirect_uri body \<noteq> [] \<longrightarrow>
      upsert encrypt hint now sid body db =
        Inr (db(sid \<mapsto> old\<lparr>provider_name := b_provider_name body,
                             client_id := b_client_id body,
                             redirect_uri := b_redirect_uri body,
                             auth_url := b_auth_url body,
                             token_url := b_token_url body,
                             scopes := b_scopes body,
                             additional_config := b_additional_config body\<rparr>))) \<and>
   (b_client_secret body = None \<and> db sid = Some old \<and>
    upsert encrypt hint now sid body db = Inr db' \<longrightarrow>
      map_option client_secret (db' sid) = Some (client_secret old) \<and>
      map_option client_secret_hint (db' sid) = Some (client_secret_hint old) \<and>
      map_option client_secret_updated_at (db' sid) = Some (client_secret_updated_at old)) \<and>
   provider_view_of (c\<lparr>client_secret := x\<rparr>) = provider_view_of c \<and>
   (upsert encrypt hint now sid (body\<lparr>b_client_secret := Some s1\<rparr>) db = Inr db1 \<and>
    upsert encrypt hint now sid (body\<lparr>b_client_secret := Some s2\<rparr>) db = Inr db2 \<and>
    hint s1 = hint s2 \<longrightarrow> read_provider db1 sid' = read_provider db2 sid') \<and>
   (handleUpdateOAuthProvider JSON_parse oauthForm = Some body' \<and>
    f_client_secret oauthForm = [] \<longrightarrow> b_client_secret body' = None) \<and>
   (\<not> secretEditMode st \<or> trim (newSecret st) = [] \<longrightarrow>
      p_client_secret (handleSave_payload st) = None)"
proof (intro conjI impI)
  assume "b_client_secret body = None \<and> db sid = Some old \<and>
    b_client_id body \<noteq> [] \<and> b_auth_url body \<noteq> [] \<and> b_token_url body \<noteq> [] \<and>
    b_redirect_uri body \<noteq> []"
  then show "upsert encrypt hint now sid body db =
        Inr (db(sid \<mapsto> old\<lparr>provider_name := b_provider_name body,
                             client_id := b_client_id body,
                             redirect_uri := b_redirect_uri body,
                             auth_url := b_auth_url body,
                             token_url := b_token_url body,
                             scopes := b_scopes body,
                             additional_config := b_additional_config body\<rparr>))"
    by (intro upsert_update_without_secret) simp_all
next
  assume a: "b_client_secret body = None \<and> db sid = Some old \<and>
    upsert encrypt hint now sid body db = Inr db'"
  from upsert_without_secret [where body = body and db = db and sid = sid and old = old
         and encrypt = encrypt and hint = hint and now = now and db' = db'] a
  show "map_option client_secret (db' sid) = Some (client_secret old)"
    "map_option client_secret_hint (db' sid) = Some (client_secret_hint old)"
    "map_option client_secret_updated_at (db' sid) = Some (client_secret_updated_at old)"
    by simp_all
next
  show "provider_view_of (c\<lparr>client_secret := x\<rparr>) = provider_view_of c"
    by (rule view_ignores_ciphertext)
next
  assume "upsert encrypt hint now sid (body\<lparr>b_client_secret := Some s1\<rparr>) db = Inr db1 \<and>
    upsert encrypt hint now sid (body\<lparr>b_client_secret := Some s2\<rparr>) db = Inr db2 \<and>
    hint s1 = hint s2"
  then show "read_provider db1 sid' = read_provider db2 sid'"
    using read_after_upsert [where encrypt = encrypt and hint = hint and now = now
        and sid = sid and body = body and ?s1.0 = s1 and ?s2.0 = s2 and db = db
        and ?db1.0 = db1 and ?db2.0 = db2 and sid' = sid']
    by simp
next
  assume "handleUpdateOAuthProvider JSON_parse oauthForm = Some body' \<and>
    f_client_secret oauthForm = []"
  then show "b_client_secret body' = None"
    using update_body_blank_secret [where JSON_parse = JSON_parse and oauthForm = oauthForm
        and body = body']
    by simp
next
  assume "\<not> secretEditMode st \<or> trim (newSecret st) = []"
  then show "p_client_secret (handleSave_payload st) = None"
    by (rule payload_without_secret)
qed

lemma upsert_update_with_secret:
  assumes "b_client_secret body = Some s" "db sid = Some old"
    "b_client_id body \<noteq> []" "b_auth_url body \<noteq> []" "b_token_url body \<noteq> []"
    "b_redirect_uri body \<noteq> []"
  shows "upsert encrypt hint now sid body db =
           Inr (db(sid \<mapsto> old\<lparr>provider_name := b_provider_name body,
                                client_id := b_client_id body,
                                redirect_uri := b_redirect_uri body,
                                auth_url := b_auth_url body,
                                token_url := b_token_url body,
                                scopes := b_scopes body,
                                additional_config := b_additional_config body,
                                client_secret := encrypt s,
                                client_secret_hint := hint s,
                                client_secret_updated_at := now\<rparr>))"
  using assms by (simp add: upsert_def Let_def)

lemma edit_body_fields:
  "b_client_secret edit_body = None" "b_client_id edit_body \<noteq> []"
  "b_auth_url edit_body \<noteq> []" "b_token_url edit_body \<noteq> []" "b_redirect_uri edit_body \<noteq> []"
  by (simp_all add: edit_body_def)

lemma registry_github: "registry ''github-mcp'' = Some github_config"
  by (simp add: registry_def)

lemma edit_form_scopes: "parse_scopes ''repo, user'' = [''repo'', ''user'']"
  by (simp add: parse_scopes_def trim_def isWhitespace_def)

lemma edit_form_body: "handleUpdateOAuthProvider parse_empty_object edit_form = Some edit_body"
  by (simp add: handleUpdateOAuthProvider_def edit_form_def parse_empty_object_def
        edit_body_def edit_form_scopes)

lemma with_secret_Inr:
  "upsert marked last4 9 ''github-mcp'' (edit_body\<lparr>b_client_secret := Some s\<rparr>) registry =
     Inr (projr (upsert marked last4 9 ''github-mcp''
                   (edit_body\<lparr>b_client_secret := Some s\<rparr>) registry))"
  using upsert_update_with_secret [of "edit_body\<lparr>b_client_secret := Some s\<rparr>" s registry
          "''github-mcp''" github_config marked last4 9]
  by (simp add: edit_body_fields registry_github)

theorem client_secret_write_only_witness:
  "b_client_secret edit_body = None \<and>
   registry ''github-mcp'' = Some github_config \<and>
   upsert marked last4 9 ''github-mcp'' edit_body registry =
     Inr (registry(''github-mcp'' \<mapsto>
       github_config\<lparr>provider_name := b_provider_name edit_body,
                      client_id := b_client_id edit_body,
                      redirect_uri := b_redirect_uri edit_body,
                      auth_url := b_auth_url edit_body,
                      token_url := b_token_url edit_body,
                      scopes := b_scopes edit_body,
                      additional_config := b_additional_config edit_body\<rparr>)) \<and>
   last4 ''aaaa-1234'' = last4 ''bbbb-1234'' \<and>
   read_provider (projr (upsert marked last4 9 ''github-mcp''
                    (edit_body\<lparr>b_client_secret := Some ''aaaa-1234''\<rparr>) registry)) ''github-mcp'' =
   read_provider (projr (upsert marked last4 9 ''github-mcp''
                    (edit_body\<lparr>b_client_secret := Some ''bbbb-1234''\<rparr>) registry)) ''github-mcp'' \<and>
   handleUpdateOAuthProvider parse_empty_object edit_form = Some edit_body \<and>
   f_client_secret edit_form = [] \<and>
   \<not> secretEditMode closed_modal \<and>
   p_client_secret (handleSave_payload closed_modal) = None"
proof -
  note T = client_secret_write_only [where body = edit_body and db = registry
      and sid = "''github-mcp''" and old = github_config and encrypt = marked
      and hint = last4 and now = 9 and ?s1.0 = "''aaaa-1234''" and ?s2.0 = "''bbbb-1234''"
      and ?db1.0 = "projr (upsert marked last4 9 ''github-mcp''
                    (edit_body\<lparr>b_client_secret := Some ''aaaa-1234''\<rparr>) registry)"
      and ?db2.0 = "projr (upsert marked last4 9 ''github-mcp''
                    (edit_body\<lparr>b_client_secret := Some ''bbbb-1234''\<rparr>) registry)"
      and sid' = "''github-mcp''" and JSON_parse = parse_empty_object
      and oauthForm = edit_form and body' = edit_body and st = closed_modal]
  have hints: "last4 ''aaaa-1234'' = last4 ''bbbb-1234''"
    by (simp add: last4_def)
  have blank: "f_client_secret edit_form = []"
    by (simp add: edit_form_def)
  have closed: "\<not> secretEditMode closed_modal"
    by (simp add: closed_modal_def)
  have updated: "upsert marked last4 9 ''github-mcp'' edit_body registry =
     Inr (registry(''github-mcp'' \<mapsto>
       github_config\<lparr>provider_name := b_provider_name edit_body,
                      client_id := b_client_id edit_body,
                      redirect_uri := b_redirect_uri edit_body,
                      auth_url := b_auth_url edit_body,
                      token_url := b_token_url edit_body,
                      scopes := b_scopes edit_body,
                      additional_config := b_additional_config edit_body\<rparr>))"
    by (rule T [THEN conjunct1, THEN mp]) (simp add: edit_body_fields registry_github)
  have same_view:
    "read_provider (projr (upsert marked last4 9 ''github-mcp''
                    (edit_body\<lparr>b_client_secret := Some ''aaaa-1234''\<rparr>) registry)) ''github-mcp'' =
     read_provider (projr (upsert marked last4 9 ''github-mcp''
                    (edit_body\<lparr>b_client_secret := Some ''bbbb-1234''\<rparr>) registry)) ''github-mcp''"
    by (rule T [THEN conjunct2, THEN conjunct2, THEN conjunct2, THEN conjunct1, THEN mp])
       (intro conjI with_secret_Inr hints)
  have omitted: "p_client_secret (handleSave_payload closed_modal) = None"
    by (rule T [THEN conjunct2, THEN conjunct2, THEN conjunct2, THEN conjunct2, THEN conjunct2,
                THEN mp]) (simp add: closed)
  show ?thesis
    by (intro conjI edit_body_fields(1) registry_github updated hints same_view edit_form_body
          blank closed omitted)
qed

section \<open>The OAuth callback\<close>

lemma begin_pending:
  "dom (pending (snd (beginAuthorization env now random u server store)))
     \<subseteq> insert random (dom (pending store))"
  by (auto simp: beginAuthorization_def split: sum.splits)

lemma begin_issued:
  "fst (beginAuthorization env now random u server store) = Inr link \<Longrightarrow>
   au_state link = random \<and>
   pending (snd (beginAuthorization env now random u server store)) random =
     Some \<lparr>ps_user = u, ps_server = server, ps_expires_at = now + env_ttl env\<rparr>"
  by (auto simp: beginAuthorization_def split: sum.splits)

lemma begin_failed:
  "fst (beginAuthorization env now random u server store) = Inl e \<Longrightarrow>
   snd (beginAuthorization env now random u server store) = store"
  by (auto simp: beginAuthorization_def split: sum.splits)

lemma begin_grants:
  "grants (snd (beginAuthorization env now random u server store)) = grants store"
  by (auto simp: beginAuthorization_def split: sum.splits)

lemma callback_pending:
  "pending (snd (handleCallback env now server code cb_state cb_error store)) = pending store"
  by (auto simp: handleCallback_def split: option.splits sum.splits prod.splits)

lemma disconnect_pending: "pending (disconnect u server store) = pending store"
  by (simp add: disconnect_def split: option.splits)

lemma flow_step_invariant:
  assumes "dom (pending store) \<subseteq> set issued"
  shows "dom (pending (fst (flow_step env (store, issued) op)))
           \<subseteq> set (snd (flow_step env (store, issued) op))"
proof (cases op)
  case (Begin now random u server)
  show ?thesis
  proof (cases "fst (beginAuthorization env now random u server store)")
    case (Inl e)
    with begin_failed [OF Inl] assms Begin show ?thesis
      by (cases "beginAuthorization env now random u server store") simp
  next
    case (Inr link)
    with begin_issued [OF Inr] begin_pending [of env now random u server store] assms Begin
    show ?thesis
      by (cases "beginAuthorization env now random u server store") auto
  qed
next
  case (Callback now server code cb_state cb_error)
  with assms show ?thesis by (simp add: callback_pending)
next
  case (Disconnect u server)
  with assms show ?thesis by (simp add: disconnect_pending)
qed

lemma flow_foldl_invariant:
  "dom (pending (fst s)) \<subseteq> set (snd s) \<Longrightarrow>
   dom (pending (fst (foldl (flow_step env) s ops))) \<subseteq> set (snd (foldl (flow_step env) s ops))"
proof (induction ops arbitrary: s)
  case Nil
  then show ?case by simp
next
  case (Cons op ops)
  obtain store issued where s: "s = (store, issued)" by (cases s)
  with Cons.prems have "dom (pending (fst (flow_step env s op))) \<subseteq> set (snd (flow_step env s op))"
    using flow_step_invariant [of store issued env op] by simp
  then show ?case using Cons.IH by simp
qed

lemma pending_were_issued:
  "dom (pending (fst (flow_history env ops))) \<subseteq> set (snd (flow_history env ops))"
  unfolding flow_history_def
  by (rule flow_foldl_invariant) (simp add: empty_store_def)

lemma callback_unknown_state:
  "cb_state = None \<or> (\<exists>s. cb_state = Some s \<and> pending store s = None) \<Longrightarrow>
   handleCallback env now server code cb_state cb_error store = (Inl InvalidState, store)"
  by (auto simp: handleCallback_def)

lemma callback_stale_state:
  "cb_state = Some s \<Longrightarrow> pending store s = Some p \<Longrightarrow>
   ps_expires_at p \<le> now \<or> ps_server p \<noteq> server \<Longrightarrow>
   handleCallback env now server code cb_state cb_error store = (Inl InvalidState, store)"
  by (auto simp: handleCallback_def)

lemma callback_failure_writes_nothing:
  "fst (handleCallback env now server code cb_state cb_error store) \<noteq> Inr () \<Longrightarrow>
   snd (handleCallback env now server code cb_state cb_error store) = store"
  by (auto simp: handleCallback_def split: option.splits sum.splits prod.splits if_splits)

lemma callback_success_needs_state:
  "fst (handleCallback env now server code cb_state cb_error store) = Inr () \<Longrightarrow>
   \<exists>s p. cb_state = Some s \<and> pending store s = Some p \<and> now < ps_expires_at p \<and>
         ps_server p = server \<and> cb_error = None"
  by (auto simp: handleCallback_def split: option.splits sum.splits prod.splits if_splits)

text \<open>
  C6. After any history of the flow engine, a callback whose state is missing or was never
  handed out by \<open>beginAuthorization\<close> fails with \<open>InvalidState\<close> and leaves the store as it
  was. The same holds for a state that has expired or was issued for another server. A
  callback that does not succeed writes nothing, and a callback succeeds only for a state
  that is pending, not expired and issued for that server.
\<close>

theorem callback_needs_issued_state:
  "(cb_state = None \<or> (\<exists>s. cb_state = Some s \<and> s \<notin> set (snd (flow_history env ops))) \<longrightarrow>
      handleCallback env now server code cb_state cb_error (fst (flow_history env ops)) =
        (Inl InvalidState, fst (flow_history env ops))) \<and>
   (cb_state = Some s \<and> pending store s = Some p \<and>
    (ps_expires_at p \<le> now \<or> ps_server p \<noteq> server) \<longrightarrow>
      handleCallback env now server code cb_state cb_error store = (Inl InvalidState, store)) \<and>
   (fst (handleCallback env now server code cb_state cb_error store) \<noteq> Inr () \<longrightarrow>
      snd (handleCallback env now server code cb_state cb_error store) = store) \<and>
   (fst (handleCallback env now server code cb_state cb_error store) = Inr () \<longrightarrow>
      (\<exists>s p. cb_state = Some s \<and> pending store s = Some p \<and> now < ps_expires_at p \<and>
             ps_server p = server \<and> cb_error = None))"
proof (intro conjI impI)
  assume a: "cb_state = None \<or> (\<exists>s. cb_state = Some s \<and> s \<notin> set (snd (flow_history env ops)))"
  have "cb_state = None \<or> (\<exists>s. cb_state = Some s \<and> pending (fst (flow_history env ops)) s = None)"
  proof (rule disjE [OF a])
    assume "cb_state = None"
    then show ?thesis by simp
  next
    assume "\<exists>s. cb_state = Some s \<and> s \<notin> set (snd (flow_history env ops))"
    then obtain s where s: "cb_state = Some s" "s \<notin> set (snd (flow_history env ops))" by blast
    from s(2) pending_were_issued [of env ops]
    have "s \<notin> dom (pending (fst (flow_history env ops)))" by blast
    then have "pending (fst (flow_history env ops)) s = None" by (simp add: domIff)
    with s(1) show ?thesis by simp
  qed
  then show "handleCallback env now server code cb_state cb_error (fst (flow_history env ops)) =
        (Inl InvalidState, fst (flow_history env ops))"
    by (rule callback_unknown_state)
next
  assume "cb_state = Some s \<and> pending store s = Some p \<and>
    (ps_expires_at p \<le> now \<or> ps_server p \<noteq> server)"
  then show "handleCallback env now server code cb_state cb_error store = (Inl InvalidState, store)"
    using callback_stale_state [of cb_state s store p now server env code cb_error] by simp
next
  assume "fst (handleCallback env now server code cb_state cb_error store) \<noteq> Inr ()"
  then show "snd (handleCallback env now server code cb_state cb_error store) = store"
    by (rule callback_failure_writes_nothing)
next
  assume "fst (handleCallback env now server code cb_state cb_error store) = Inr ()"
  then show "\<exists>s p. cb_state = Some s \<and> pending store s = Some p \<and> now < ps_expires_at p \<and>
             ps_server p = server \<and> cb_error = None"
    by (rule callback_success_needs_state)
qed

lemma sample_resolve: "env_resolve sample_flow_env ''github-mcp'' = Inr github_config"
  by (simp add: sample_flow_env_def resolve_def registry_github)

lemma sample_begin:
  "beginAuthorization sample_flow_env 100 ''st-1'' ''a@b.com'' ''github-mcp'' empty_store =
     (Inr \<lparr>au_auth_url = auth_url github_config, au_client_id = client_id github_config,
           au_redirect_uri = redirect_uri github_config, au_scopes = scopes github_config,
           au_state = ''st-1''\<rparr>, after_begin)"
  by (simp add: beginAuthorization_def sample_resolve)
     (simp add: empty_store_def after_begin_def sample_flow_env_def)

lemma sample_history: "flow_history sample_flow_env one_begin = (after_begin, [''st-1''])"
  by (simp add: flow_history_def one_begin_def sample_begin)

lemma after_begin_pending:
  "pending after_begin ''st-1'' =
     Some \<lparr>ps_user = ''a@b.com'', ps_server = ''github-mcp'', ps_expires_at = 700\<rparr>"
  by (simp add: after_begin_def)

lemma sample_success:
  "fst (handleCallback sample_flow_env 120 ''github-mcp'' ''good-code'' (Some ''st-1'') None
          after_begin) = Inr ()"
  by (simp add: handleCallback_def after_begin_pending)
     (simp add: sample_flow_env_def stub_exchange_def)

theorem callback_needs_issued_state_witness:
  "''forged'' \<notin> set (snd (flow_history sample_flow_env one_begin)) \<and>
   handleCallback sample_flow_env 120 ''github-mcp'' ''good-code'' (Some ''forged'') None
       (fst (flow_history sample_flow_env one_begin)) =
     (Inl InvalidState, fst (flow_history sample_flow_env one_begin)) \<and>
   pending after_begin ''st-1'' =
     Some \<lparr>ps_user = ''a@b.com'', ps_server = ''github-mcp'', ps_expires_at = 700\<rparr> \<and>
   handleCallback sample_flow_env 700 ''github-mcp'' ''good-code'' (Some ''st-1'') None after_begin =
     (Inl InvalidState, after_begin) \<and>
   fst (handleCallback sample_flow_env 120 ''github-mcp'' ''good-code'' (Some ''st-1'') None
          after_begin) = Inr ()"
proof -
  have forged: "''forged'' \<notin> set (snd (flow_history sample_flow_env one_begin))"
    by (simp add: sample_history)
  have unknown:
    "handleCallback sample_flow_env 120 ''github-mcp'' ''good-code'' (Some ''forged'') None
       (fst (flow_history sample_flow_env one_begin)) =
     (Inl InvalidState, fst (flow_history sample_flow_env one_begin))"
    by (rule callback_needs_issued_state [THEN conjunct1, THEN mp]) (simp add: forged)
  have expired:
    "handleCallback sample_flow_env 700 ''github-mcp'' ''good-code'' (Some ''st-1'') None after_begin =
     (Inl InvalidState, after_begin)"
    by (rule callback_needs_issued_state [where s = "''st-1''"
          and p = "\<lparr>ps_user = ''a@b.com'', ps_server = ''github-mcp'', ps_expires_at = 700\<rparr>",
          THEN conjunct2, THEN conjunct1, THEN mp])
       (simp add: after_begin_pending)
  show ?thesis
    by (intro conjI forged unknown after_begin_pending expired sample_success)
qed

end
